theory Spec2Isabelle
  imports Complex_Main
begin

section \<open>Synthetic product and review generators\<close>

text \<open>
  A shallow embedding of the two generation scripts, \<^verbatim>\<open>Generate_Products.py\<close> and
  \<^verbatim>\<open>Generate_Reviews.py\<close>.

  \<^item> Python \<^verbatim>\<open>int\<close> is \<^typ>\<open>int\<close>; a 64-bit float is modelled by an exact
    \<^typ>\<open>real\<close>, so rounding error of the floating-point unit is outside the model.
  \<^item> Every exception is a value of \<open>error\<close>; a function that can raise returns
    \<open>error + 'a\<close>.
  \<^item> The random generator object is mutated by every draw; here its state \<open>'g\<close> is
    passed in and returned. What a draw returns is a parameter, \<open>'g rng_lib\<close>.
  \<^item> A pandas frame is a record of equally long columns (products) or a list of row
    records (reviews), as the scripts build them.
\<close>

subsection \<open>Exceptions\<close>

datatype error = ValueError | IndexError | KeyError

definition and_then :: "error + 'a \<Rightarrow> ('a \<Rightarrow> error + 'b) \<Rightarrow> error + 'b" where
  "and_then m f = (case m of Inl e \<Rightarrow> Inl e | Inr x \<Rightarrow> f x)"

subsection \<open>The random generator\<close>

text \<open>
  \<open>seed_rng\<close> is \<^verbatim>\<open>np.random.default_rng(seed)\<close>; \<open>next_random\<close> is one call of
  \<^verbatim>\<open>Generator.random()\<close>, a float of the half-open interval from 0 to 1;
  \<open>next_integer low high\<close> is one bounded draw with \<open>low \<le> r < high\<close>. These
  contracts are \<open>rng_ok\<close>.
\<close>

record 'g rng_lib =
  seed_rng :: "int \<Rightarrow> 'g"
  next_random :: "'g \<Rightarrow> real \<times> 'g"
  next_integer :: "int \<Rightarrow> int \<Rightarrow> 'g \<Rightarrow> int \<times> 'g"

definition rng_ok :: "'g rng_lib \<Rightarrow> bool" where
  "rng_ok L \<longleftrightarrow>
     (\<forall>g. 0 \<le> fst (next_random L g) \<and> fst (next_random L g) < 1) \<and>
     (\<forall>low high g. low < high \<longrightarrow>
        low \<le> fst (next_integer L low high g) \<and> fst (next_integer L low high g) < high)"

text \<open>\<^verbatim>\<open>rng.integers(low, high)\<close>: raises ValueError when \<open>low \<ge> high\<close>.\<close>

definition rng_integers :: "'g rng_lib \<Rightarrow> int \<Rightarrow> int \<Rightarrow> 'g \<Rightarrow> error + (int \<times> 'g)" where
  "rng_integers L low high g =
     (if low \<ge> high then Inl ValueError else Inr (next_integer L low high g))"

text \<open>
  \<^verbatim>\<open>rng.choice(a)\<close> without weights: an index drawn by \<^verbatim>\<open>integers(0, len(a))\<close>;
  ValueError on an empty population.
\<close>

definition rng_choice :: "'g rng_lib \<Rightarrow> 'a list \<Rightarrow> 'g \<Rightarrow> error + ('a \<times> 'g)" where
  "rng_choice L a g =
     (if a = [] then Inl ValueError
      else (case next_integer L 0 (int (length a)) g of (i, g') \<Rightarrow>
        if 0 \<le> i \<and> i < int (length a) then Inr (a ! nat i, g') else Inl IndexError))"

text \<open>
  \<^verbatim>\<open>rng.choice(a, p=p)\<close>: ValueError when the population is empty, when \<open>a\<close> and
  \<open>p\<close> differ in size, when a weight is negative or when the weights do not sum to 1
  (numpy allows a tolerance of the square root of the machine epsilon; over the reals the
  sum is exact). Otherwise one uniform draw \<open>u\<close> is located in the cumulative sums,
  normalised by their last entry, by \<^verbatim>\<open>searchsorted(u, side='right')\<close>.
\<close>

fun cumsum :: "real \<Rightarrow> real list \<Rightarrow> real list" where
  "cumsum acc [] = []"
| "cumsum acc (x # xs) = (acc + x) # cumsum (acc + x) xs"

definition searchsorted_right :: "real list \<Rightarrow> real \<Rightarrow> nat" where
  "searchsorted_right cdf u = length (takeWhile (\<lambda>c. c \<le> u) cdf)"

definition rng_choice_p :: "'g rng_lib \<Rightarrow> 'a list \<Rightarrow> real list \<Rightarrow> 'g \<Rightarrow> error + ('a \<times> 'g)" where
  "rng_choice_p L a p g =
     (if a = [] then Inl ValueError
      else if length p \<noteq> length a then Inl ValueError
      else if (\<exists>x \<in> set p. x < 0) then Inl ValueError
      else if sum_list p \<noteq> 1 then Inl ValueError
      else (case next_random L g of (u, g') \<Rightarrow>
        let cdf = map (\<lambda>c. c / last (cumsum 0 p)) (cumsum 0 p);
            idx = searchsorted_right cdf u
        in if idx < length a then Inr (a ! idx, g') else Inl IndexError))"

section \<open>The review generator\<close>

subsection \<open>Configuration\<close>

definition MAX_REVIEW_CHARS :: nat where
  "MAX_REVIEW_CHARS = 100000"

definition DEFAULT_MAX_REVIEWS :: int where
  "DEFAULT_MAX_REVIEWS = 5"

definition DEFAULT_BATCH_SIZE :: nat where
  "DEFAULT_BATCH_SIZE = 100000"

record persona_template =
  persona :: string
  first_names :: "string list"
  last_names :: "string list"
  age_range :: "int \<times> int"
  locations :: "string list"
  focus :: string

definition PERSONAS :: "persona_template list" where
  "PERSONAS = [
    \<lparr>persona = ''Tech Enthusiast'',
     first_names =
       [''Alex'', ''Jordan'', ''Taylor'', ''Sam'', ''Riley'', ''Casey''],
     last_names =
       [''Ng'', ''Patel'', ''Garcia'', ''Smith'', ''Khan'', ''Brown''],
     age_range = (22, 45),
     locations =
       [''San Francisco, CA'', ''Berlin, DE'', ''London, UK'', ''Austin, TX''],
     focus = ''performance''\<rparr>,
    \<lparr>persona = ''Bargain Hunter'',
     first_names =
       [''Jamie'', ''Morgan'', ''Avery'', ''Charlie''],
     last_names =
       [''Diaz'', ''Chen'', ''O'Neill'', ''Lopez''],
     age_range = (25, 60),
     locations =
       [''Nashville, TN'', ''Madrid, ES'', ''Chicago, IL''],
     focus = ''value''\<rparr>,
    \<lparr>persona = ''Parent Reviewer'',
     first_names =
       [''Pat'', ''Kelly'', ''Dana'', ''Robin''],
     last_names =
       [''Williams'', ''Miller'', ''Wilson'', ''Davis''],
     age_range = (30, 50),
     locations =
       [''Seattle, WA'', ''Paris, FR'', ''Toronto, CA''],
     focus = ''durability''\<rparr>,
    \<lparr>persona = ''Outdoor Enthusiast'',
     first_names =
       [''Blake'', ''Drew'', ''Harper'', ''Parker''],
     last_names =
       [''Hunt'', ''Stone'', ''Wells'', ''Fisher''],
     age_range = (20, 55),
     locations =
       [''Denver, CO'', ''Vancouver, CA'', ''Rotorua, NZ''],
     focus = ''weatherproofing''\<rparr>,
    \<lparr>persona = ''Home Chef'',
     first_names =
       [''Maya'', ''Noah'', ''Liam'', ''Ivy''],
     last_names =
       [''Singh'', ''Martinez'', ''Rossi'', ''Keller''],
     age_range = (24, 65),
     locations =
       [''Rome, IT'', ''Melbourne, AU'', ''Boston, MA''],
     focus = ''ease_of_use''\<rparr>,
    \<lparr>persona = ''Audiophile'',
     first_names =
       [''Evan'', ''Kai'', ''Zoe'', ''Nina''],
     last_names =
       [''Park'', ''Hernandez'', ''Lopez'', ''Morris''],
     age_range = (18, 50),
     locations =
       [''Tokyo, JP'', ''Seoul, KR'', ''Brooklyn, NY''],
     focus = ''sound_quality''\<rparr>,
    \<lparr>persona = ''Frequent Traveler'',
     first_names =
       [''Chris'', ''Patrice'', ''Jo'', ''Samir''],
     last_names =
       [''Baker'', ''Singh'', ''Ali'', ''Johnson''],
     age_range = (28, 58),
     locations =
       [''Dubai, AE'', ''Singapore, SG'', ''Los Angeles, CA''],
     focus = ''portability''\<rparr>,
    \<lparr>persona = ''Pet Owner'',
     first_names =
       [''Lena'', ''Omar'', ''Bea'', ''Hannah''],
     last_names =
       [''Ramirez'', ''Gonzalez'', ''Brown'', ''Evans''],
     age_range = (21, 70),
     locations =
       [''Minneapolis, MN'', ''Dublin, IE'', ''Lima, PE''],
     focus = ''safety''\<rparr>]"


definition BASE_RATING_PROBS :: "real list" where
  "BASE_RATING_PROBS = [7 / 100, 11 / 100, 22 / 100, 33 / 100, 27 / 100]"

definition CATEGORY_BIASES :: "(string \<times> real) list" where
  "CATEGORY_BIASES =
    [(''Electronics'', - (10 / 100)), (''Automotive'', - (8 / 100)), (''Tools'', - (5 / 100)),
     (''Clothing'', 2 / 100), (''Shoes'', 1 / 100), (''Toys'', 3 / 100), (''Books'', 8 / 100),
     (''Music'', 6 / 100), (''Movies'', 4 / 100), (''Health'', 0), (''Beauty'', 3 / 100),
     (''Grocery'', 2 / 100), (''Home'', 3 / 100), (''Garden'', 1 / 100), (''Sports'', 0),
     (''Office'', 2 / 100), (''Pets'', 4 / 100), (''Baby'', 5 / 100), (''Outdoors'', - (2 / 100)),
     (''Jewelry'', 5 / 100), (''General'', 0)]"

record templates =
  openers :: "string list"
  middles :: "string list"
  closers :: "string list"

definition BASE_TEMPLATES :: "(int \<times> templates) list" where
  "BASE_TEMPLATES = [
    (1, \<lparr>openers =
        [''Terrible experience with'', ''I regret buying'', ''Completely unsatisfied with''],
      middles =
        [''It broke after a few uses and support did nothing.'',
         ''The build felt cheap and failed.'', ''Multiple defects and poor reliability.''],
      closers =
        [''Would not recommend.'', ''Save your money.'',
         ''I returned it and asked for a refund.'']\<rparr>),
    (2, \<lparr>openers =
        [''Disappointing overall for'', ''Not what I expected from'',
         ''Mixed feelings about''],
      middles =
        [''Works sometimes but has flaws.'', ''Some features are fine but execution lacks.'',
         ''Disappointing quality in several places.''],
      closers =
        [''There are better options.'', ''I probably won't buy again.'',
         ''Needs improvement.'']\<rparr>),
    (3, \<lparr>openers =
        [''It's okay for'', ''Average experience with'', ''Works as expected for''],
      middles =
        [''It does the job but doesn't excel.'', ''Reasonable quality at this price.'',
         ''Has pros and cons.''],
      closers =
        [''A decent neutral pick.'', ''Satisfactory if you need something simple.'',
         ''Not exceptional but usable.'']\<rparr>),
    (4, \<lparr>openers =
        [''Pretty pleased with'', ''Good value in'', ''Solid performance for''],
      middles =
        [''Performs reliably and feels well constructed.'',
         ''Met expectations and pleasant to use.'',
         ''A few small issues, but overall positive.''],
      closers =
        [''Would recommend.'', ''Good buy.'', ''I'd purchase again.'']\<rparr>),
    (5, \<lparr>openers =
        [''Absolutely love'', ''Fantastic product:'', ''Exceeded expectations with''],
      middles =
        [''Top-tier quality and attention to detail.'',
         ''Performs flawlessly and is a joy to use.'',
         ''Everything feels premium and reliable.''],
      closers =
        [''Highly recommended!'', ''Five stars.'', ''Worth every penny.'']\<rparr>)]"

subsection \<open>Helper functions\<close>

text \<open>
  The dictionary returned by \<^verbatim>\<open>sample_persona\<close>. Its keys \<^verbatim>\<open>reviewer_name\<close>,
  \<^verbatim>\<open>reviewer_persona\<close>, \<^verbatim>\<open>reviewer_age\<close> and \<^verbatim>\<open>reviewer_location\<close> are the fields
  \<open>info_name\<close>, \<open>info_persona\<close>, \<open>info_age\<close> and \<open>info_location\<close>; the review row
  below has columns of the same names.
\<close>

record persona_info =
  info_name :: string
  info_persona :: string
  info_age :: int
  info_location :: string
  persona_focus :: string

definition sample_persona :: "'g rng_lib \<Rightarrow> 'g \<Rightarrow> error + (persona_info \<times> 'g)" where
  "sample_persona L g =
     and_then (rng_choice L PERSONAS g) (\<lambda>(p, g1).
     and_then (rng_choice L (first_names p) g1) (\<lambda>(first, g2).
     and_then (rng_choice L (last_names p) g2) (\<lambda>(last, g3).
     let full_name = first @ '' '' @ last in
     and_then (rng_integers L (fst (age_range p)) (snd (age_range p) + 1) g3) (\<lambda>(age, g4).
     and_then (rng_choice L (locations p) g4) (\<lambda>(location, g5).
     Inr (\<lparr>info_name = full_name, info_persona = persona p, info_age = age,
           info_location = location, persona_focus = focus p\<rparr>, g5))))))"

text \<open>\<^verbatim>\<open>CATEGORY_BIASES.get(category, CATEGORY_BIASES.get("General", 0.0))\<close>\<close>

definition category_bias :: "string \<Rightarrow> real" where
  "category_bias category =
     (case map_of CATEGORY_BIASES category of
        Some b \<Rightarrow> b
      | None \<Rightarrow> (case map_of CATEGORY_BIASES ''General'' of Some b \<Rightarrow> b | None \<Rightarrow> 0))"

text \<open>\<^verbatim>\<open>np.clip(probs, lo, hi)\<close> and \<^verbatim>\<open>probs /= probs.sum()\<close>.\<close>

definition clip :: "real \<Rightarrow> real \<Rightarrow> real list \<Rightarrow> real list" where
  "clip lo hi xs = map (\<lambda>x. min (max x lo) hi) xs"

definition renormalize :: "real list \<Rightarrow> real list" where
  "renormalize xs = map (\<lambda>x. x / sum_list xs) xs"

text \<open>
  The two redistribution blocks of \<^verbatim>\<open>adjust_probs_for_category\<close> are the same
  statements on swapped indices: mass \<open>amount\<close> leaves buckets \<open>i\<close> and \<open>j\<close> in
  proportion to their content and enters buckets \<open>k\<close> and \<open>l\<close> in proportion to
  theirs, or in two halves when both are empty. Lines 111 to 118 are
  \<open>move_mass 0 1 3 4\<close>, lines 122 to 129 are \<open>move_mass 3 4 0 1\<close>.
\<close>

definition move_mass :: "nat \<Rightarrow> nat \<Rightarrow> nat \<Rightarrow> nat \<Rightarrow> real \<Rightarrow> real list \<Rightarrow> real list" where
  "move_mass i j k l amount probs =
     (let reduction = map (\<lambda>x. x * (amount / (probs ! i + probs ! j))) [probs ! i, probs ! j];
          probs1 = probs[i := probs ! i - reduction ! 0];
          probs2 = probs1[j := probs1 ! j - reduction ! 1];
          addition_total = probs2 ! k + probs2 ! l
      in if addition_total \<le> 0 then
           (let probs3 = probs2[k := probs2 ! k + amount * (1 / 2)]
            in probs3[l := probs3 ! l + amount * (1 / 2)])
         else
           (let probs3 = probs2[k := probs2 ! k + amount * (probs2 ! k / addition_total)]
            in probs3[l := probs3 ! l + amount * (probs3 ! l / addition_total)]))"

text \<open>
  The body of \<^verbatim>\<open>adjust_probs_for_category\<close> once the bias is known. An index
  beyond the end of the array raises IndexError at the first statement that reads it.
\<close>

definition adjust_probs :: "real list \<Rightarrow> real \<Rightarrow> error + real list" where
  "adjust_probs base_probs bias =
     (let probs = base_probs in
      if bias = 0 then Inr probs
      else
        let shift = max (min (bias * (1 / 2)) (15 / 100)) (- (15 / 100)) in
        if shift > 0 then
          (if length probs < 2 then Inl IndexError
           else
             let move_from_low = shift * (probs ! 0 + probs ! 1) in
             if move_from_low > 0 then
               (if length probs < 5 then Inl IndexError
                else Inr (renormalize (clip (1 / 10 ^ 6) 1 (move_mass 0 1 3 4 move_from_low probs))))
             else Inr (renormalize (clip (1 / 10 ^ 6) 1 probs)))
        else
          (if length probs < 5 then Inl IndexError
           else
             let move_from_high = (- shift) * (probs ! 3 + probs ! 4) in
             if move_from_high > 0 then
               Inr (renormalize (clip (1 / 10 ^ 6) 1 (move_mass 3 4 0 1 move_from_high probs)))
             else Inr (renormalize (clip (1 / 10 ^ 6) 1 probs))))"

definition adjust_probs_for_category :: "real list \<Rightarrow> string \<Rightarrow> error + real list" where
  "adjust_probs_for_category base_probs category =
     adjust_probs base_probs (category_bias category)"

definition choose_num_reviews :: "'g rng_lib \<Rightarrow> 'g \<Rightarrow> int \<Rightarrow> error + (int \<times> 'g)" where
  "choose_num_reviews L g max_reviews =
     (if max_reviews < 1 then Inr (0, g)
      else
        let weights = take (nat (max_reviews + 1))
                        [20 / 100, 28 / 100, 22 / 100, 15 / 100, 10 / 100, 5 / 100];
            weights' = map (\<lambda>w. w / sum_list weights) weights
        in rng_choice_p L [0 .. max_reviews] weights' g)"

definition choose_rating_for_category :: "'g rng_lib \<Rightarrow> 'g \<Rightarrow> string \<Rightarrow> error + (int \<times> 'g)" where
  "choose_rating_for_category L g category =
     and_then (adjust_probs_for_category BASE_RATING_PROBS category) (\<lambda>probs.
     rng_choice_p L [1, 2, 3, 4, 5] probs g)"

text \<open>
  \<^verbatim>\<open>sample_review_date\<close>: instants are whole seconds since the epoch, \<open>now\<close> is what
  \<^verbatim>\<open>datetime.now()\<close> returned. The result is the sampled instant; its rendering by
  \<^verbatim>\<open>strftime\<close> is not modelled.
\<close>

definition sample_review_date :: "'g rng_lib \<Rightarrow> 'g \<Rightarrow> int \<Rightarrow> int \<Rightarrow> error + (int \<times> 'g)" where
  "sample_review_date L g now years_back =
     (let start = now - 365 * years_back * 86400 in
      and_then (rng_integers L 0 ((now - start) + 1) g) (\<lambda>(random_seconds, g1).
      Inr (start + random_seconds, g1)))"

definition safe_truncate :: "string \<Rightarrow> nat \<Rightarrow> string" where
  "safe_truncate text max_chars =
     (if length text \<le> max_chars then text else take (max_chars - 1) text)"

text \<open>\<^verbatim>\<open>sep.join(parts)\<close>\<close>

fun join :: "string \<Rightarrow> string list \<Rightarrow> string" where
  "join sep [] = []"
| "join sep [x] = x"
| "join sep (x # y # ys) = x @ sep @ join sep (y # ys)"

definition persona_phrase_for :: "string \<Rightarrow> string" where
  "persona_phrase_for fc =
     (if fc = ''performance'' then ''As someone who values performance, ''
      else if fc = ''value'' then ''As someone who looks for value, ''
      else if fc = ''durability'' then ''With kids in the house, ''
      else if fc = ''weatherproofing'' then ''I use it outdoors often, so ''
      else if fc = ''ease_of_use'' then ''I cook a lot and care about ease of use, so ''
      else if fc = ''sound_quality'' then ''As an audiophile, ''
      else if fc = ''portability'' then ''I travel a lot, so ''
      else if fc = ''safety'' then ''With pets around, ''
      else [])"

definition extra_pool :: "int \<Rightarrow> string list" where
  "extra_pool rating =
     (if rating \<ge> 4 then
        [''It consistently performs well in daily use.'',
         ''Setup was straightforward and painless.'',
         ''Materials and fit/finish are impressive for the price.'']
      else if rating = 3 then
        [''It's serviceable for common tasks but not outstanding.'',
         ''It does what it needs to, but don't expect surprises.'',
         ''Good for occasional use or budget setups.'']
      else
        [''It caused repeated issues during normal use.'',
         ''Support and documentation were inadequate.'',
         ''I encountered multiple defects and usability problems.''])"

definition make_review_text ::
  "'g rng_lib \<Rightarrow> 'g \<Rightarrow> int \<Rightarrow> string \<Rightarrow> string \<Rightarrow> persona_info \<Rightarrow> error + (string \<times> 'g)" where
  "make_review_text L g rating product_name product_category info =
     (case map_of BASE_TEMPLATES rating of
        None \<Rightarrow> Inl KeyError
      | Some tpl \<Rightarrow>
          and_then (rng_choice L (openers tpl) g) (\<lambda>(opener, g1).
          and_then (rng_choice L (middles tpl) g1) (\<lambda>(middle, g2).
          and_then (rng_choice L (closers tpl) g2) (\<lambda>(closer, g3).
          let persona_phrase = persona_phrase_for (persona_focus info);
              category_phrase = '' In the '' @ product_category @ '' category, this product''
          in
          and_then (rng_choice L (extra_pool rating) g3) (\<lambda>(extra, g4).
          let persona_line = '' - '' @ info_name info @ '', '' @ info_persona info @ '', ''
                               @ info_location info;
              full = join '' '' [opener @ '' '' @ product_name @ ''.'', persona_phrase @ middle,
                                 category_phrase @ ''.'', extra, closer]
                       @ '' '' @ persona_line
          in Inr (safe_truncate full MAX_REVIEW_CHARS, g4))))))"

subsection \<open>Streaming the product file\<close>

text \<open>
  One row of the product file: the cells of the id, name and category columns, \<open>None\<close>
  for a null category. The id and name columns are taken to be present and well typed;
  the category column is optional. \<open>file_columns\<close> are the column names the file has.
\<close>

record p_row =
  row_id :: int
  row_name :: string
  row_category :: "string option"

record parquet_file =
  file_columns :: "string list"
  row_groups :: "p_row list list"

record df_batch =
  df_columns :: "string list"
  df_rows :: "p_row list"

text \<open>
  \<^verbatim>\<open>Table.to_batches(max_chunksize=n)\<close>: consecutive chunks of at most \<open>n\<close> rows. A
  chunk size of zero is not a meaningful request and is modelled as a single chunk.
\<close>

function to_batches :: "nat \<Rightarrow> 'a list \<Rightarrow> 'a list list" where
  "to_batches n xs =
     (if xs = [] then []
      else if n = 0 then [xs]
      else take n xs # to_batches n (drop n xs))"
  by pat_completeness auto
termination
  by (relation "measure (\<lambda>(n, xs). length xs)") auto

declare to_batches.simps [simp del]

text \<open>
  \<^verbatim>\<open>iter_products_from_parquet\<close>: the reader keeps the requested columns the file
  has, and yields the batches of every row group in order. The generator is modelled by
  the list of the frames it yields.
\<close>

definition iter_products_from_parquet ::
  "parquet_file \<Rightarrow> string \<Rightarrow> string \<Rightarrow> string \<Rightarrow> nat \<Rightarrow> df_batch list" where
  "iter_products_from_parquet pf id_col name_col category_col batch_size =
     (let columns = [id_col, name_col] @ (if category_col \<noteq> [] then [category_col] else []);
          present = filter (\<lambda>c. c \<in> set (file_columns pf)) columns
      in concat (map (\<lambda>row_group.
                   map (\<lambda>batch. \<lparr>df_columns = present, df_rows = batch\<rparr>)
                       (to_batches batch_size row_group))
                 (row_groups pf)))"

subsection \<open>Main entry\<close>

record args =
  id_column :: string
  name_column :: string
  category_column :: string
  output_path :: string
  max_reviews_per_product :: int
  batch_size :: nat
  seed :: int
  years_back :: int

record review =
  review_id :: int
  product_id :: int
  product_name :: string
  product_category :: string
  rating :: int
  review_text :: string
  reviewer_name :: string
  reviewer_persona :: string
  reviewer_age :: int
  reviewer_location :: string
  review_date :: int

text \<open>
  The state of one run: the generator, the id counter, and the output. The Parquet writer
  is \<open>None\<close> until it is opened and then holds the tables written so far; the CSV file
  is the list of appended frames, each with its \<^verbatim>\<open>header=\<close> flag.
\<close>

record 'g run_state =
  rng :: 'g
  review_id_counter :: int
  parquet_writer :: "review list list option"
  csv_header_written :: bool
  csv_file :: "(bool \<times> review list) list"

text \<open>\<^verbatim>\<open>str.lower\<close> and \<^verbatim>\<open>str.endswith\<close> on ASCII text.\<close>

definition char_lower :: "char \<Rightarrow> char" where
  "char_lower c =
     (let n = (of_char c :: nat) in if 65 \<le> n \<and> n \<le> 90 then char_of (n + 32) else c)"

definition lower :: "string \<Rightarrow> string" where
  "lower s = map char_lower s"

definition endswith :: "string \<Rightarrow> string \<Rightarrow> bool" where
  "endswith s suffix \<longleftrightarrow>
     length suffix \<le> length s \<and> drop (length s - length suffix) s = suffix"

text \<open>
  The body of the innermost loop, lines 265 to 282: one review for product
  \<open>(pid, pname, pcat)\<close> with the id \<open>counter\<close>. \<open>clock k\<close> is the instant
  \<^verbatim>\<open>datetime.now()\<close> returns while review \<open>k\<close> is generated.
\<close>

definition make_review ::
  "'g rng_lib \<Rightarrow> (int \<Rightarrow> int) \<Rightarrow> int \<Rightarrow> int \<Rightarrow> string \<Rightarrow> string \<Rightarrow> 'g \<Rightarrow> int
     \<Rightarrow> error + (review \<times> 'g)" where
  "make_review L clock yrs pid pname pcat g counter =
     and_then (sample_persona L g) (\<lambda>(info, g1).
     and_then (choose_rating_for_category L g1 pcat) (\<lambda>(rt, g2).
     and_then (make_review_text L g2 rt pname pcat info) (\<lambda>(txt, g3).
     and_then (sample_review_date L g3 (clock counter) yrs) (\<lambda>(date, g4).
     Inr (\<lparr>review_id = counter, product_id = pid, product_name = pname,
           product_category = pcat, rating = rt, review_text = txt,
           reviewer_name = info_name info, reviewer_persona = info_persona info,
           reviewer_age = info_age info, reviewer_location = info_location info,
           review_date = date\<rparr>, g4)))))"

text \<open>
  \<^verbatim>\<open>for _ in range(n_reviews)\<close>: the loop state is the generator, the id counter and
  the rows collected for the current batch.
\<close>

fun review_loop ::
  "'g rng_lib \<Rightarrow> (int \<Rightarrow> int) \<Rightarrow> int \<Rightarrow> int \<Rightarrow> string \<Rightarrow> string \<Rightarrow> nat
     \<Rightarrow> 'g \<times> int \<times> review list \<Rightarrow> error + ('g \<times> int \<times> review list)" where
  "review_loop L clock yrs pid pname pcat 0 s = Inr s"
| "review_loop L clock yrs pid pname pcat (Suc n) (g, counter, rows_out) =
     and_then (make_review L clock yrs pid pname pcat g counter) (\<lambda>(r, g1).
     review_loop L clock yrs pid pname pcat n (g1, counter + 1, rows_out @ [r]))"

text \<open>
  The category of a product row. Lines 258 to 261 take it from the category cell, or from
  the product name when the frame has no category column; line 262 replaces a category
  that is not a key of the bias table.
\<close>

definition derived_category :: "bool \<Rightarrow> p_row \<Rightarrow> string" where
  "derived_category has_category p =
     (let pname = row_name p
      in if has_category then
           (case row_category p of Some c \<Rightarrow> c | None \<Rightarrow> ''General'')
         else
           (if CHR ''_'' \<in> set pname then takeWhile (\<lambda>c. c \<noteq> CHR ''_'') pname
            else ''General''))"

definition row_pcat :: "bool \<Rightarrow> p_row \<Rightarrow> string" where
  "row_pcat has_category p =
     (let pcat = derived_category has_category p
      in if pcat \<in> set (map fst CATEGORY_BIASES) then pcat else ''General'')"

text \<open>The body of \<^verbatim>\<open>for _, p_row in df_batch.iterrows()\<close>.\<close>

definition process_row ::
  "'g rng_lib \<Rightarrow> (int \<Rightarrow> int) \<Rightarrow> args \<Rightarrow> bool \<Rightarrow> p_row
     \<Rightarrow> 'g \<times> int \<times> review list \<Rightarrow> error + ('g \<times> int \<times> review list)" where
  "process_row L clock a has_category p s =
     (case s of (g, counter, rows_out) \<Rightarrow>
        let pid = row_id p;
            pname = row_name p;
            pcat = row_pcat has_category p
        in and_then (choose_num_reviews L g (max_reviews_per_product a)) (\<lambda>(n_reviews, g1).
           review_loop L clock (years_back a) pid pname pcat (nat n_reviews)
             (g1, counter, rows_out)))"

fun rows_loop ::
  "'g rng_lib \<Rightarrow> (int \<Rightarrow> int) \<Rightarrow> args \<Rightarrow> bool \<Rightarrow> p_row list
     \<Rightarrow> 'g \<times> int \<times> review list \<Rightarrow> error + ('g \<times> int \<times> review list)" where
  "rows_loop L clock a has_category [] s = Inr s"
| "rows_loop L clock a has_category (p # ps) s =
     and_then (process_row L clock a has_category p s)
       (rows_loop L clock a has_category ps)"

text \<open>Lines 284 to 297: nothing is written for an empty batch.\<close>

definition write_batch :: "bool \<Rightarrow> review list \<Rightarrow> 'g run_state \<Rightarrow> 'g run_state" where
  "write_batch out_is_csv rows_out st =
     (if rows_out = [] then st
      else if out_is_csv then
        st\<lparr>csv_file := csv_file st @ [(\<not> csv_header_written st, rows_out)],
           csv_header_written := True\<rparr>
      else
        (case parquet_writer st of
           None \<Rightarrow> st\<lparr>parquet_writer := Some [rows_out]\<rparr>
         | Some tables \<Rightarrow> st\<lparr>parquet_writer := Some (tables @ [rows_out])\<rparr>))"

definition process_batch ::
  "'g rng_lib \<Rightarrow> (int \<Rightarrow> int) \<Rightarrow> args \<Rightarrow> bool \<Rightarrow> df_batch \<Rightarrow> 'g run_state
     \<Rightarrow> error + 'g run_state" where
  "process_batch L clock a out_is_csv batch st =
     (let has_category = category_column a \<in> set (df_columns batch) in
      and_then (rows_loop L clock a has_category (df_rows batch)
                  (rng st, review_id_counter st, []))
        (\<lambda>(g, counter, rows_out).
           Inr (write_batch out_is_csv rows_out (st\<lparr>rng := g, review_id_counter := counter\<rparr>))))"

fun batches_loop ::
  "'g rng_lib \<Rightarrow> (int \<Rightarrow> int) \<Rightarrow> args \<Rightarrow> bool \<Rightarrow> df_batch list \<Rightarrow> 'g run_state
     \<Rightarrow> error + 'g run_state" where
  "batches_loop L clock a out_is_csv [] st = Inr st"
| "batches_loop L clock a out_is_csv (b # bs) st =
     and_then (process_batch L clock a out_is_csv b st)
       (batches_loop L clock a out_is_csv bs)"

text \<open>
  \<^verbatim>\<open>main\<close> of the review generator on parsed arguments \<open>a\<close> and the content \<open>pf\<close> of
  the input file. The result is the final state of the run, or the exception that ended it.
\<close>

definition main_reviews ::
  "'g rng_lib \<Rightarrow> (int \<Rightarrow> int) \<Rightarrow> args \<Rightarrow> parquet_file \<Rightarrow> error + 'g run_state" where
  "main_reviews L clock a pf =
     (let g0 = seed_rng L (seed a);
          out_is_parquet = endswith (lower (output_path a)) ''.parquet'';
          out_is_csv = endswith (lower (output_path a)) ''.csv''
      in if \<not> (out_is_parquet \<or> out_is_csv) then Inl ValueError
         else batches_loop L clock a out_is_csv
                (iter_products_from_parquet pf (id_column a) (name_column a)
                   (category_column a) (batch_size a))
                \<lparr>rng = g0, review_id_counter = 1, parquet_writer = None,
                 csv_header_written = False, csv_file = []\<rparr>)"

text \<open>All review rows written by a run, in the order of emission.\<close>

definition emitted :: "'g run_state \<Rightarrow> review list" where
  "emitted st =
     (case parquet_writer st of None \<Rightarrow> [] | Some tables \<Rightarrow> concat tables)
       @ concat (map snd (csv_file st))"

section \<open>The product generator\<close>

subsection \<open>Category and title tables\<close>

text \<open>
  \<^verbatim>\<open>CATEGORY_PRODUCTS\<close> is a dictionary literal; its keys are distinct and Python keeps
  them in the order of the literal, so it is an association list here.
\<close>

definition CATEGORY_PRODUCTS :: "(string \<times> string list) list" where
  "CATEGORY_PRODUCTS = [
    (''Electronics'',
      [''Wireless Bluetooth Earbuds'', ''Noise Cancelling Headphones'',
       ''Portable Power Bank 20000mAh'', ''USB-C Fast Charger 65W'', ''4K Streaming Stick'',
       ''Smart Speaker with Alexa'', ''1080p USB Webcam'', ''Mechanical Gaming Keyboard'',
       ''Ergonomic Wireless Mouse'', ''27-inch 4K Monitor'', ''Wi-Fi 6 Router'',
       ''External SSD 1TB'']),
    (''Computers & Accessories'',
      [''Laptop Stand Adjustable Aluminum'', ''USB-C Hub Multiport Adapter'',
       ''HDMI Cable 6ft 4K'', ''Bluetooth Keyboard for Tablet'',
       ''Gaming Mouse Pad Extended'', ''Webcam Privacy Cover (Pack of 3)'',
       ''Portable Laptop Charger'', ''DisplayPort Cable 8K'', ''NVMe SSD Enclosure USB-C'',
       ''Ethernet Adapter USB 3.0'']),
    (''Smart Home'',
      [''Smart Plug Mini (4 Pack)'', ''Smart LED Light Bulb Color Changing'',
       ''Video Doorbell Camera'', ''Indoor Security Camera 1080p'', ''Smart Thermostat'',
       ''Smart Light Switch'', ''Robot Vacuum Cleaner'', ''Smart Smoke Detector'',
       ''Smart Motion Sensor'', ''Smart Door Lock Keyless Entry'']),
    (''Home & Kitchen'',
      [''Stainless Steel Water Bottle 32oz'', ''Nonstick Frying Pan 12-inch'',
       ''Air Fryer 6 Quart'', ''Electric Kettle Temperature Control'',
       ''Memory Foam Pillow'', ''Vacuum Storage Bags (10 Pack)'',
       ''Kitchen Knife Set with Block'', ''Dish Drying Rack'', ''Bamboo Cutting Board Set'',
       ''LED Desk Lamp Dimmable'']),
    (''Furniture'',
      [''Ergonomic Office Chair with Lumbar Support'', ''Standing Desk Converter'',
       ''Bookshelf 5-Tier Industrial'', ''Storage Ottoman Bench'',
       ''Side Table with Charging Station'', ''Adjustable Bar Stools Set of 2'',
       ''Computer Desk with Shelves'', ''Accent Chair Modern'']),
    (''Tools & Home Improvement'',
      [''Cordless Drill Driver Kit'', ''Digital Laser Measuring Tool'',
       ''Socket Wrench Set 108-Piece'', ''Utility Knife Retractable'',
       ''Heavy Duty Extension Cord 25ft'', ''LED Work Light Rechargeable'',
       ''Stud Finder with Deep Scan'', ''Smart Tape Measure'', ''Screwdriver Set Magnetic'']),
    (''Sports & Outdoors'',
      [''Yoga Mat Non-Slip'', ''Adjustable Dumbbells Pair'', ''Resistance Bands Set'',
       ''Insulated Water Bottle'', ''Camping Lantern LED'', ''Hiking Backpack 40L'',
       ''Trekking Poles Collapsible'', ''Fitness Tracker Watch'',
       ''Inflatable Sleeping Pad'', ''Bike Phone Mount'']),
    (''Clothing'',
      [''Men's Performance T-Shirt'', ''Women's High-Waisted Leggings'',
       ''Unisex Hoodie Fleece'', ''Men's Slim Fit Jeans'', ''Women's Summer Dress'',
       ''Athletic Socks Cushioned (6 Pack)'', ''Winter Beanie Knit'',
       ''Rain Jacket Lightweight'']),
    (''Shoes'',
      [''Men's Running Shoes Breathable'', ''Women's Walking Shoes'', ''Slip-On Sneakers'',
       ''Hiking Boots Waterproof'', ''Casual Loafers'', ''Training Shoes Lightweight'']),
    (''Beauty & Personal Care'',
      [''Electric Toothbrush Rechargeable'', ''Facial Cleanser Gentle'',
       ''Vitamin C Serum for Face'', ''Hair Dryer Ionic'', ''Beard Trimmer Kit'',
       ''Sunscreen SPF 50'', ''Moisturizing Body Lotion'', ''Makeup Brush Set'']),
    (''Health & Household'',
      [''Digital Thermometer'', ''Blood Pressure Monitor'', ''First Aid Kit 200 Piece'',
       ''Hand Sanitizer Gel'', ''Air Purifier HEPA'', ''Laundry Detergent Pods'',
       ''Disinfecting Wipes'', ''Pain Relief Patches'']),
    (''Baby'',
      [''Baby Diapers Size 3 (120 Count)'', ''Baby Wipes Sensitive (8 Pack)'',
       ''Convertible Car Seat'', ''Baby Monitor with Camera'', ''Portable Changing Pad'',
       ''Silicone Baby Bibs (3 Pack)'']),
    (''Pet Supplies'',
      [''Dry Dog Food 20lb'', ''Cat Litter Clumping 40lb'',
       ''Dog Training Pads (100 Count)'', ''Interactive Cat Toy'', ''Pet Grooming Brush'',
       ''Dog Leash Heavy Duty'', ''Cat Water Fountain'']),
    (''Toys & Games'',
      [''Building Blocks Set 500pcs'', ''Remote Control Car'', ''Puzzle 1000 Pieces'',
       ''Board Game Family Edition'', ''STEM Science Kit'', ''Dollhouse Furniture Set'',
       ''Kids Art Supplies Kit'']),
    (''Books'',
      [''Hardcover Notebook Dotted'', ''Cookbook: Quick & Easy Meals'',
       ''Science Fiction Novel Bestseller'', ''Children's Picture Book'',
       ''Productivity Planner Weekly'', ''Language Learning Workbook'']),
    (''Office Products'',
      [''Ballpoint Pens Black (12 Pack)'', ''Wireless Label Maker'', ''Desk Organizer Mesh'',
       ''Sticky Notes Assorted Colors'', ''Printer Paper 500 Sheets'',
       ''Ergonomic Wrist Rest'', ''Whiteboard Markers Set'']),
    (''Video Games'',
      [''Gaming Controller Wireless'', ''Gaming Headset Surround Sound'',
       ''Mechanical Keyboard RGB'', ''Console Charging Dock'', ''Gaming Chair Mat'']),
    (''Automotive'',
      [''Car Phone Mount Magnetic'', ''Jump Starter Battery Pack'',
       ''Tire Inflator Portable Air Compressor'', ''Windshield Sun Shade'',
       ''Car Vacuum Cleaner Handheld'', ''OBD2 Scanner Diagnostic Tool'']),
    (''Industrial & Scientific'',
      [''Safety Glasses Anti-Fog'', ''Nitrile Gloves Box of 100'',
       ''Digital Caliper Stainless Steel'', ''Labeling Tape Refill'',
       ''ESD Anti-Static Wrist Strap'', ''Infrared Thermometer Gun'']),
    (''Arts, Crafts & Sewing'',
      [''Acrylic Paint Set 24 Colors'', ''Sketchbook Hardcover A4'', ''Hot Glue Gun Kit'',
       ''Knitting Needles Set'', ''Craft Scissors Titanium'',
       ''Sewing Thread Set 60 Spools''])]"

definition BRANDS :: "string list" where
  "BRANDS =
    [''Anker'', ''Samsung'', ''Sony'', ''Logitech'', ''Amazon Basics'', ''Apple'', ''HP'',
     ''Dell'', ''ASUS'', ''Lenovo'', ''Bose'', ''Philips'', ''Nike'', ''Adidas'',
     ''Under Armour'', ''Instant Pot'', ''Shark'', ''Dyson'', ''Fitbit'', ''Ring'',
     ''TP-Link'', ''Roku'', ''JBL'', ''Belkin'', ''Xiaomi'', ''Spigen'', ''Hydro Flask'',
     ''Brita'', ''KitchenAid'', ''LEGO'']"

definition QUALIFIERS :: "string list" where
  "QUALIFIERS =
    [''New'', ''2026 Model'', ''Upgraded'', ''Premium'', ''Ultra'', ''Pro'', ''Compact'',
     ''Lightweight'', ''Heavy Duty'', ''High Performance'', ''Fast Charging'',
     ''Waterproof'', ''Wireless'', ''Rechargeable'']"

definition BUNDLE_HINTS :: "string list" where
  "BUNDLE_HINTS =
    ['''', '''', '''', '' (2 Pack)'', '' (3 Pack)'', '' (4 Pack)'', '' Bundle'']"

definition COLORS :: "string list" where
  "COLORS =
    ['''', '''', '''', '' - Black'', '' - White'', '' - Blue'', '' - Gray'', '' - Red'']"

definition SIZES :: "string list" where
  "SIZES =
    ['''', '''', '''', '''', '' Small'', '' Medium'', '' Large'', '' XL'', '' 1TB'',
     '' 2TB'', '' 64GB'', '' 128GB'', '' 20000mAh'']"

subsection \<open>Title assembly\<close>

text \<open>
  \<^verbatim>\<open>str.strip()\<close> and \<^verbatim>\<open>str.split()\<close> without arguments, on ASCII text: the
  white-space characters are the codes 9 to 13 and 28 to 32.
\<close>

definition isspace :: "char \<Rightarrow> bool" where
  "isspace c = (let n = (of_char c :: nat) in (9 \<le> n \<and> n \<le> 13) \<or> (28 \<le> n \<and> n \<le> 32))"

definition strip :: "string \<Rightarrow> string" where
  "strip s = rev (dropWhile isspace (rev (dropWhile isspace s)))"

fun split_from :: "string \<Rightarrow> string \<Rightarrow> string list" where
  "split_from w [] = (if w = [] then [] else [w])"
| "split_from w (c # cs) =
     (if isspace c then (if w = [] then split_from [] cs else w # split_from [] cs)
      else split_from (w @ [c]) cs)"

definition split :: "string \<Rightarrow> string list" where
  "split s = split_from [] s"

definition make_amazon_title :: "'g rng_lib \<Rightarrow> 'g \<Rightarrow> string \<Rightarrow> error + (string \<times> 'g)" where
  "make_amazon_title L g base =
     and_then (rng_choice L BRANDS g) (\<lambda>(brand, g1).
     case next_random L g1 of (r, g2) \<Rightarrow>
     and_then (if r < 75 / 100 then rng_choice L QUALIFIERS g2 else Inr ([], g2))
       (\<lambda>(qualifier, g3).
     and_then (rng_choice L SIZES g3) (\<lambda>(size, g4).
     and_then (rng_choice L COLORS g4) (\<lambda>(color, g5).
     and_then (rng_choice L BUNDLE_HINTS g5) (\<lambda>(bundle, g6).
     let parts = [brand] @ (if qualifier \<noteq> [] then [qualifier] else []) @ [base @ size];
         title = strip (join '' '' (filter (\<lambda>p. p \<noteq> []) parts));
         title' = strip (title @ color @ bundle)
     in Inr (join '' '' (split title'), g6))))))"

subsection \<open>Main entry\<close>

record gen_args =
  rows :: int
  products_output :: string
  products_seed :: int

text \<open>
  The data frame, by column. The columns \<^verbatim>\<open>id\<close>, \<^verbatim>\<open>product_category\<close> and
  \<^verbatim>\<open>product_name\<close> carry the names of the variables that hold them in
  \<^verbatim>\<open>main\<close>.
\<close>

record table =
  ids :: "int list"
  product_categories :: "string list"
  product_names :: "string list"
  price_usd :: "real list"
  inventory_count :: "int list"
  margin :: "real list"

text \<open>\<open>n\<close> consecutive draws, as the vectorised calls with a \<^verbatim>\<open>size\<close> make them.\<close>

fun draws :: "nat \<Rightarrow> ('g \<Rightarrow> 'a \<times> 'g) \<Rightarrow> 'g \<Rightarrow> 'a list \<times> 'g" where
  "draws 0 f g = ([], g)"
| "draws (Suc n) f g =
     (case f g of (x, g1) \<Rightarrow> (case draws n f g1 of (xs, g2) \<Rightarrow> (x # xs, g2)))"

text \<open>
  \<^verbatim>\<open>rng.uniform(low, high, size)\<close> is \<open>low + (high - low) * u\<close> for a draw \<open>u\<close> of
  \<^verbatim>\<open>random()\<close>; a negative size raises ValueError.
\<close>

definition rng_uniform ::
  "'g rng_lib \<Rightarrow> real \<Rightarrow> real \<Rightarrow> int \<Rightarrow> 'g \<Rightarrow> error + (real list \<times> 'g)" where
  "rng_uniform L low high n g =
     (if n < 0 then Inl ValueError
      else Inr (draws (nat n)
                  (\<lambda>g. case next_random L g of (u, g') \<Rightarrow> (low + (high - low) * u, g')) g))"

definition rng_integers_size ::
  "'g rng_lib \<Rightarrow> int \<Rightarrow> int \<Rightarrow> int \<Rightarrow> 'g \<Rightarrow> error + (int list \<times> 'g)" where
  "rng_integers_size L low high n g =
     (if n < 0 then Inl ValueError
      else if low \<ge> high then Inl ValueError
      else Inr (draws (nat n) (next_integer L low high) g))"

text \<open>
  \<^verbatim>\<open>np.round(x, decimals)\<close>: scale, round to the nearest integer with ties to the
  even one, scale back.
\<close>

definition rint :: "real \<Rightarrow> int" where
  "rint x =
     (let f = floor x; d = x - of_int f
      in if d < 1 / 2 then f else if d > 1 / 2 then f + 1 else if even f then f else f + 1)"

definition np_round :: "real \<Rightarrow> nat \<Rightarrow> real" where
  "np_round x decimals = of_int (rint (x * 10 ^ decimals)) / 10 ^ decimals"

text \<open>The loop of lines 315 to 317 that draws one title for each row.\<close>

fun names_loop :: "'g rng_lib \<Rightarrow> string list \<Rightarrow> 'g \<Rightarrow> error + (string list \<times> 'g)" where
  "names_loop L [] g = Inr ([], g)"
| "names_loop L (cat # cats) g =
     (case map_of CATEGORY_PRODUCTS cat of
        None \<Rightarrow> Inl KeyError
      | Some bases \<Rightarrow>
          and_then (rng_choice L bases g) (\<lambda>(base, g1).
          and_then (make_amazon_title L g1 base) (\<lambda>(title, g2).
          and_then (names_loop L cats g2) (\<lambda>(titles, g3).
          Inr (title # titles, g3)))))"

text \<open>
  \<^verbatim>\<open>main\<close> of the product generator on parsed arguments: the result is the path and
  the table handed to \<^verbatim>\<open>pq.write_table\<close>, or the exception raised before.
\<close>

definition main_products :: "'g rng_lib \<Rightarrow> gen_args \<Rightarrow> error + (string \<times> table)" where
  "main_products L a =
     (let g0 = seed_rng L (products_seed a);
          categories = map fst CATEGORY_PRODUCTS
      in if length categories \<noteq> 20 then Inl ValueError
         else
           let ids' = [1 .. rows a];
               cat_idx = map (\<lambda>i. (i - 1) mod int (length categories)) ids';
               cats = map (\<lambda>i. categories ! nat i) cat_idx
           in and_then (names_loop L cats g0) (\<lambda>(names, g1).
              and_then (rng_uniform L (499 / 100) (99999 / 100) (rows a) g1) (\<lambda>(prices, g2).
              and_then (rng_integers_size L 0 250000 (rows a) g2) (\<lambda>(inventory, g3).
              and_then (rng_uniform L (5 / 100) (75 / 100) (rows a) g3) (\<lambda>(margins, g4).
              Inr (products_output a,
                   \<lparr>ids = ids', product_categories = cats, product_names = names,
                    price_usd = map (\<lambda>x. np_round x 2) prices,
                    inventory_count = inventory,
                    margin = map (\<lambda>x. np_round x 4) margins\<rparr>))))))"

section \<open>A generator for concrete runs\<close>

text \<open>
  A small deterministic generator that meets \<open>rng_ok\<close>: its state counts the draws made.
  It stands in for numpy's generator wherever a run is evaluated on concrete input.
\<close>

definition counter_rng :: "nat rng_lib" where
  "counter_rng =
     \<lparr>seed_rng = (\<lambda>s. nat \<bar>s\<bar>),
      next_random = (\<lambda>g. (1 / (2 + real g), Suc g)),
      next_integer = (\<lambda>low high g. (low + int g mod (high - low), Suc g))\<rparr>"

section \<open>Predicates of the properties\<close>

definition all_positive :: "real list \<Rightarrow> bool" where
  "all_positive ps = list_all (\<lambda>p. 0 < p) ps"

definition all_nonneg :: "real list \<Rightarrow> bool" where
  "all_nonneg ps = list_all (\<lambda>p. 0 \<le> p) ps"

text \<open>A review row that repeats the id and name of product row \<open>p\<close> and carries its category.\<close>

definition from_row :: "bool \<Rightarrow> p_row \<Rightarrow> review \<Rightarrow> bool" where
  "from_row has_category p r \<longleftrightarrow>
     product_id r = row_id p \<and> product_name r = row_name p \<and>
     product_category r = row_pcat has_category p"

text \<open>Whether the frames read from the file have the category column.\<close>

definition file_has_category :: "args \<Rightarrow> parquet_file \<Rightarrow> bool" where
  "file_has_category a pf \<longleftrightarrow>
     category_column a \<in> set (filter (\<lambda>c. c \<in> set (file_columns pf))
       ([id_column a, name_column a] @
        (if category_column a \<noteq> [] then [category_column a] else [])))"

text \<open>The initial state of a run with generator state \<open>g\<close>.\<close>

definition initial_state :: "'g \<Rightarrow> 'g run_state" where
  "initial_state g =
     \<lparr>rng = g, review_id_counter = 1, parquet_writer = None,
      csv_header_written = False, csv_file = []\<rparr>"

section \<open>Concrete inputs\<close>

text \<open>
  Two small product files for the review generator, read with the default column names:
  one product of a category the bias table does not have, and three products in one row
  group that a batch size of 2 splits into two frames.
\<close>

definition example_args :: args where
  "example_args =
     \<lparr>id_column = ''id'', name_column = ''product_name'',
      category_column = ''product_category'', output_path = ''reviews.csv'',
      max_reviews_per_product = 5, batch_size = 2, seed = 0, years_back = 3\<rparr>"

definition toy_row :: p_row where
  "toy_row =
     \<lparr>row_id = 1, row_name = ''LEGO Pro Building Blocks Set'',
      row_category = Some ''Toys & Games''\<rparr>"

definition single_file :: parquet_file where
  "single_file =
     \<lparr>file_columns = [''id'', ''product_category'', ''product_name''],
      row_groups = [[toy_row]]\<rparr>"

definition example_file :: parquet_file where
  "example_file =
     \<lparr>file_columns = [''id'', ''product_category'', ''product_name''],
      row_groups =
        [[toy_row,
          \<lparr>row_id = 2, row_name = ''Sony Wireless Bluetooth Earbuds'',
           row_category = Some ''Electronics''\<rparr>,
          \<lparr>row_id = 3, row_name = ''Anker Paperback Notebook'',
           row_category = Some ''Books''\<rparr>]]\<rparr>"

definition example_clock :: "int \<Rightarrow> int" where
  "example_clock k = 1700000000 + k"

text \<open>The six categories of the product generator that are keys of the bias table.\<close>

definition biased_product_categories :: "string list" where
  "biased_product_categories =
     [''Electronics'', ''Clothing'', ''Shoes'', ''Baby'', ''Books'', ''Automotive'']"

text \<open>A real number with at most \<open>d\<close> decimals.\<close>

definition decimals_at_most :: "nat \<Rightarrow> real \<Rightarrow> bool" where
  "decimals_at_most d x \<longleftrightarrow> frac (x * 10 ^ d) = 0"

definition price_ok :: "real \<Rightarrow> bool" where
  "price_ok x \<longleftrightarrow> 499 / 100 \<le> x \<and> x \<le> 99999 / 100 \<and> decimals_at_most 2 x"

definition inventory_ok :: "int \<Rightarrow> bool" where
  "inventory_ok n \<longleftrightarrow> 0 \<le> n \<and> n < 250000"

definition margin_ok :: "real \<Rightarrow> bool" where
  "margin_ok x \<longleftrightarrow> 5 / 100 \<le> x \<and> x \<le> 75 / 100 \<and> decimals_at_most 4 x"

text \<open>Two invocations of the product generator.\<close>

definition example_gen_args :: gen_args where
  "example_gen_args = \<lparr>rows = 100, products_output = ''products.parquet'', products_seed = 7\<rparr>"

definition other_gen_args :: gen_args where
  "other_gen_args = \<lparr>rows = 100, products_output = ''copy.parquet'', products_seed = 7\<rparr>"

section \<open>Properties\<close>

subsection \<open>Exceptions propagate\<close>

lemma and_then_simps [simp]:
  "and_then (Inl e) f = Inl e" "and_then (Inr x) f = f x"
  by (simp_all add: and_then_def)

lemma and_then_eq_Inr: "and_then m f = Inr y \<longleftrightarrow> (\<exists>x. m = Inr x \<and> f x = Inr y)"
  by (cases m) simp_all

subsection \<open>Draws of the random generator\<close>

lemma rng_choice_mem: "rng_choice L a g = Inr (x, g') \<Longrightarrow> x \<in> set a"
  by (auto simp: rng_choice_def split: if_splits prod.splits)

lemma rng_choice_returns:
  assumes "rng_ok L" and "a \<noteq> []"
  shows "\<exists>x g'. rng_choice L a g = Inr (x, g')"
proof -
  obtain i g' where d: "next_integer L 0 (int (length a)) g = (i, g')"
    by (cases "next_integer L 0 (int (length a)) g")
  have "(0::int) < int (length a)" using assms(2) by simp
  with assms(1) have "0 \<le> fst (next_integer L 0 (int (length a)) g) \<and>
      fst (next_integer L 0 (int (length a)) g) < int (length a)"
    unfolding rng_ok_def by blast
  with d assms(2) show ?thesis by (simp add: rng_choice_def)
qed

lemma rng_integers_range:
  assumes "rng_ok L" and "rng_integers L low high g = Inr (x, g')"
  shows "low \<le> x \<and> x < high"
proof -
  from assms(2) have lt: "low < high" and d: "next_integer L low high g = (x, g')"
    by (auto simp: rng_integers_def split: if_splits)
  from assms(1) lt have "low \<le> fst (next_integer L low high g) \<and>
      fst (next_integer L low high g) < high"
    unfolding rng_ok_def by blast
  with d show ?thesis by simp
qed

lemma rng_integers_returns:
  "low < high \<Longrightarrow> \<exists>x g'. rng_integers L low high g = Inr (x, g')"
  by (cases "next_integer L low high g") (simp add: rng_integers_def)

lemma rng_choice_p_mem: "rng_choice_p L a p g = Inr (x, g') \<Longrightarrow> x \<in> set a"
  by (auto simp: rng_choice_p_def Let_def split: if_splits prod.splits)

lemma length_cumsum [simp]: "length (cumsum acc p) = length p"
  by (induction p arbitrary: acc) simp_all

lemma last_cumsum: "p \<noteq> [] \<Longrightarrow> last (cumsum acc p) = acc + sum_list p"
proof (induction p arbitrary: acc)
  case Nil
  then show ?case by simp
next
  case (Cons x xs)
  show ?case
  proof (cases xs)
    case Nil
    then show ?thesis by simp
  next
    case (Cons y ys)
    then have "xs \<noteq> []" by simp
    from Cons.IH[OF this, of "acc + x"] Cons show ?thesis
      by (simp add: add.assoc)
  qed
qed

lemma takeWhile_stops:
  assumes "xs \<noteq> []" and "\<not> P (last xs)"
  shows "length (takeWhile P xs) < length xs"
proof (rule ccontr)
  assume "\<not> length (takeWhile P xs) < length xs"
  then have "length (takeWhile P xs) = length xs"
    using length_takeWhile_le[of P xs] by simp
  then have "takeWhile P xs = xs"
    by (metis takeWhile_eq_take take_all order_refl)
  then have "\<forall>x \<in> set xs. P x" by (simp add: takeWhile_eq_all_conv)
  with assms show False by (auto dest: last_in_set)
qed

lemma rng_choice_p_returns:
  assumes "rng_ok L" and "a \<noteq> []" and "length p = length a"
    and "list_all (\<lambda>x. 0 \<le> x) p" and "sum_list p = 1"
  shows "\<exists>x g'. rng_choice_p L a p g = Inr (x, g')"
proof -
  obtain u g' where d: "next_random L g = (u, g')" by (cases "next_random L g")
  have u: "u < 1" using assms(1) d unfolding rng_ok_def by (metis fst_conv)
  have pne: "p \<noteq> []" using assms(2,3) by auto
  let ?cs = "cumsum 0 p"
  have l: "last ?cs = 1" using last_cumsum[OF pne, of 0] assms(5) by simp
  have cne: "?cs \<noteq> []" using pne by (cases p) simp_all
  have "searchsorted_right (map (\<lambda>c. c / last ?cs) ?cs) u < length ?cs"
    unfolding searchsorted_right_def using takeWhile_stops[OF cne, of "\<lambda>c. c \<le> u"] l u
    by simp
  then have idx: "searchsorted_right (map (\<lambda>c. c / last ?cs) ?cs) u < length a"
    using assms(3) by simp
  have nn: "\<not> (\<exists>x \<in> set p. x < 0)"
    using assms(4) by (auto simp: list_all_iff)
  show ?thesis
    using assms(2,3,5) nn d idx by (simp add: rng_choice_p_def Let_def)
qed

subsection \<open>The rating distribution adjuster\<close>

lemma clip_bounds:
  "lo \<le> hi \<Longrightarrow> list_all (\<lambda>p. lo \<le> p \<and> p \<le> hi) (clip lo hi xs)"
  by (induction xs) (auto simp: clip_def)

lemma sum_list_lower:
  "list_all (\<lambda>p. (lo::real) \<le> p) xs \<Longrightarrow> lo * real (length xs) \<le> sum_list xs"
  by (induction xs) (auto simp: algebra_simps)

lemma sum_list_renormalize: "sum_list xs \<noteq> 0 \<Longrightarrow> sum_list (renormalize xs) = 1"
proof -
  assume nz: "sum_list xs \<noteq> 0"
  have "sum_list (map (\<lambda>x. x / c) xs) = sum_list xs / c" for c :: real
    by (induction xs) (simp_all add: add_divide_distrib)
  then show ?thesis using nz by (simp add: renormalize_def)
qed

lemma renormalize_pos:
  "all_positive xs \<Longrightarrow> 0 < sum_list xs \<Longrightarrow> all_positive (renormalize xs)"
  by (simp add: renormalize_def all_positive_def list_all_iff)

lemma length_clip [simp]: "length (clip lo hi xs) = length xs"
  by (simp add: clip_def)

lemma length_renormalize [simp]: "length (renormalize xs) = length xs"
  by (simp add: renormalize_def)

lemma length_move_mass [simp]: "length (move_mass i j k l a xs) = length xs"
  by (simp add: move_mass_def Let_def)

lemma all_positive_nonneg: "all_positive xs \<Longrightarrow> all_nonneg xs"
  by (auto simp: all_positive_def all_nonneg_def list_all_iff intro: less_imp_le)

text \<open>Clamping to the floor and renormalising yields a distribution with no empty bucket.\<close>

lemma renormalize_clip_valid:
  assumes "xs \<noteq> []"
  shows "all_positive (renormalize (clip (1 / 10 ^ 6) 1 xs)) \<and>
         sum_list (renormalize (clip (1 / 10 ^ 6) 1 xs)) = 1"
proof -
  let ?c = "clip (1 / 10 ^ 6) 1 xs"
  have b: "list_all (\<lambda>p. 1 / 10 ^ 6 \<le> p \<and> p \<le> 1) ?c"
    by (rule clip_bounds) simp
  then have lo: "list_all (\<lambda>p. (1 / 10 ^ 6 :: real) \<le> p) ?c" and pos: "all_positive ?c"
    by (auto simp: all_positive_def list_all_iff intro: less_le_trans[of 0 "1 / 10 ^ 6"])
  have "0 < length ?c" using assms by simp
  then have "(0::real) < 1 / 10 ^ 6 * real (length ?c)" by simp
  also have "\<dots> \<le> sum_list ?c" by (rule sum_list_lower[OF lo])
  finally have s: "0 < sum_list ?c" .
  show ?thesis using renormalize_pos[OF pos s] sum_list_renormalize[of ?c] s by simp
qed

lemma adjust_probs_distribution:
  assumes "length base = 5" and "all_nonneg base" and "sum_list base = 1"
  shows "\<exists>out. adjust_probs base bias = Inr out \<and> length out = 5 \<and>
           all_nonneg out \<and> sum_list out = 1 \<and>
           (bias \<noteq> 0 \<longrightarrow> all_positive out) \<and> (bias = 0 \<longrightarrow> out = base)"
proof (cases "bias = 0")
  case True
  then show ?thesis using assms by (simp add: adjust_probs_def)
next
  case False
  have ne: "base \<noteq> []" "move_mass i j k l a base \<noteq> []" for i j k l a
    using assms(1) by (auto simp flip: length_0_conv)
  from False show ?thesis
    using assms(1) renormalize_clip_valid[OF ne(1)] renormalize_clip_valid[OF ne(2)]
      all_positive_nonneg
    by (auto simp: adjust_probs_def Let_def)
qed

text \<open>
  C1, as stated, fails. With a bias of exactly 0 (the categories Health, Sports and
  General) the adjuster returns the base vector untouched, before the clamp: a base
  vector with an empty bucket comes back with that bucket still empty.
\<close>

theorem adjust_probs_zero_bias_keeps_empty_bucket:
  "sum_list [0, 0, 0, 0, 1 :: real] = 1 \<and> all_nonneg [0, 0, 0, 0, 1] \<and>
   category_bias ''General'' = 0 \<and>
   adjust_probs_for_category [0, 0, 0, 0, 1] ''General'' = Inr [0, 0, 0, 0, 1] \<and>
   \<not> all_positive [0, 0, 0, 0, 1]"
  by (simp add: adjust_probs_for_category_def adjust_probs_def category_bias_def
      CATEGORY_BIASES_def all_positive_def all_nonneg_def)

text \<open>
  C1, amended: for every bias in [-1, 1] and every base vector of five probabilities that
  sum to 1, the adjuster returns five non-negative entries that sum to 1; when the bias
  is not 0 every entry is strictly positive, and when it is 0 the result is the base
  vector itself.
\<close>

theorem adjust_probs_valid:
  assumes "- 1 \<le> bias" and "bias \<le> 1" and "length base = 5"
    and "all_nonneg base" and "sum_list base = 1"
  shows "\<exists>out. adjust_probs base bias = Inr out \<and> length out = 5 \<and>
           all_nonneg out \<and> sum_list out = 1 \<and>
           (bias \<noteq> 0 \<longrightarrow> all_positive out) \<and> (bias = 0 \<longrightarrow> out = base)"
  using adjust_probs_distribution[OF assms(3-5)] .

theorem adjust_probs_valid_witness:
  "- 1 \<le> (- (1 / 10) :: real) \<and> (- (1 / 10) :: real) \<le> 1 \<and> length BASE_RATING_PROBS = 5 \<and>
   all_nonneg BASE_RATING_PROBS \<and> sum_list BASE_RATING_PROBS = 1 \<and>
   (\<exists>out. adjust_probs BASE_RATING_PROBS (- (1 / 10)) = Inr out \<and> length out = 5 \<and>
      all_nonneg out \<and> sum_list out = 1 \<and> all_positive out)"
proof -
  have h: "length BASE_RATING_PROBS = 5" "all_nonneg BASE_RATING_PROBS"
    "sum_list BASE_RATING_PROBS = 1"
    by (simp_all add: BASE_RATING_PROBS_def all_nonneg_def)
  show ?thesis
    using h adjust_probs_valid[of "- (1 / 10)" BASE_RATING_PROBS] by simp
qed

subsection \<open>The review count sampler\<close>

text \<open>
  C4: the sampler is to return a count for every maximum \<open>M \<ge> 0\<close>. The table has six
  weights, the outcomes are \<open>0, \<dots>, M\<close>: for \<open>M = 6\<close> the weighted choice is handed
  seven outcomes and six weights, and raises.
\<close>

theorem choose_num_reviews_six_raises:
  "choose_num_reviews L g 6 = Inl ValueError"
  by (simp add: choose_num_reviews_def rng_choice_p_def Let_def)

subsection \<open>The review text assembler\<close>

lemma safe_truncate_le: "0 < max_chars \<Longrightarrow> length (safe_truncate text max_chars) \<le> max_chars"
  by (simp add: safe_truncate_def)

lemma safe_truncate_prefix:
  "safe_truncate text max_chars =
     take (if length text \<le> max_chars then length text else max_chars - 1) text"
  by (simp add: safe_truncate_def)

text \<open>
  C9: a text of 100,001 characters is to be cut to the cap of 100,000 characters. The cut
  keeps \<open>max_chars - 1\<close> characters, so 99,999 remain, although a text of exactly 100,000
  characters is kept whole.
\<close>

theorem safe_truncate_cuts_below_cap:
  "length (safe_truncate (replicate 100001 CHR ''a'') MAX_REVIEW_CHARS) = 99999 \<and>
   length (safe_truncate (replicate 100000 CHR ''a'') MAX_REVIEW_CHARS) = 100000"
  by (simp add: safe_truncate_def MAX_REVIEW_CHARS_def)

subsection \<open>The count sampler on every maximum\<close>

lemma choose_num_reviews_range:
  assumes "choose_num_reviews L g m = Inr (n, g')"
  shows "0 \<le> n \<and> n \<le> max 0 m"
proof (cases "m < 1")
  case True
  with assms show ?thesis by (simp add: choose_num_reviews_def)
next
  case False
  with assms have "n \<in> set [0 .. m]"
    by (auto simp: choose_num_reviews_def Let_def dest: rng_choice_p_mem)
  then show ?thesis by simp
qed

lemma choose_num_reviews_zero: "m < 1 \<Longrightarrow> choose_num_reviews L g m = Inr (0, g)"
  by (simp add: choose_num_reviews_def)

lemma truncated_weights:
  assumes "1 \<le> m" and "m \<le> 5"
  shows "let w = take (nat (m + 1)) [20 / 100, 28 / 100, 22 / 100, 15 / 100, 10 / 100, 5 / 100 :: real];
             w' = map (\<lambda>x. x / sum_list w) w
         in length w' = length [0 .. m] \<and> list_all (\<lambda>x. 0 \<le> x) w' \<and> sum_list w' = 1"
proof -
  from assms have "m = 1 \<or> m = 2 \<or> m = 3 \<or> m = 4 \<or> m = 5" by arith
  then show ?thesis
    by (elim disjE) (simp_all add: Let_def numeral_eq_Suc)
qed

lemma choose_num_reviews_returns:
  assumes "rng_ok L" and "m \<le> 5"
  shows "\<exists>n g'. choose_num_reviews L g m = Inr (n, g')"
proof (cases "m < 1")
  case True
  then show ?thesis by (simp add: choose_num_reviews_def)
next
  case False
  then have m: "1 \<le> m" by simp
  have ne: "[0 .. m] \<noteq> []" using m by (simp add: upto.simps)
  from truncated_weights[OF m assms(2)] rng_choice_p_returns[OF assms(1) ne]
  show ?thesis using False
    by (auto simp: choose_num_reviews_def Let_def)
qed

subsection \<open>One review\<close>

lemma personas_well_formed:
  "list_all (\<lambda>p. first_names p \<noteq> [] \<and> last_names p \<noteq> [] \<and> locations p \<noteq> [] \<and>
                   fst (age_range p) < snd (age_range p) + 1) PERSONAS"
  by (simp add: PERSONAS_def)

lemma sample_persona_returns:
  assumes "rng_ok L"
  shows "\<exists>info g'. sample_persona L g = Inr (info, g')"
proof -
  have ne: "PERSONAS \<noteq> []" by (simp add: PERSONAS_def)
  from rng_choice_returns[OF assms ne] obtain p g1 where
    c1: "rng_choice L PERSONAS g = Inr (p, g1)" by blast
  then have "p \<in> set PERSONAS" by (rule rng_choice_mem)
  with personas_well_formed have wf: "first_names p \<noteq> []" "last_names p \<noteq> []"
    "locations p \<noteq> []" "fst (age_range p) < snd (age_range p) + 1"
    by (auto simp: list_all_iff)
  from rng_choice_returns[OF assms wf(1)] obtain f g2 where
    c2: "rng_choice L (first_names p) g1 = Inr (f, g2)" by blast
  from rng_choice_returns[OF assms wf(2)] obtain l g3 where
    c3: "rng_choice L (last_names p) g2 = Inr (l, g3)" by blast
  from rng_integers_returns[OF wf(4), of L g3] obtain age g4 where
    c4: "rng_integers L (fst (age_range p)) (snd (age_range p) + 1) g3 = Inr (age, g4)" by blast
  from rng_choice_returns[OF assms wf(3)] obtain loc g5 where
    c5: "rng_choice L (locations p) g4 = Inr (loc, g5)" by blast
  show ?thesis by (simp add: sample_persona_def c1 c2 c3 c4 c5 Let_def)
qed

lemma base_rating_probs: "length BASE_RATING_PROBS = 5" "all_nonneg BASE_RATING_PROBS"
  "sum_list BASE_RATING_PROBS = 1"
  by (simp_all add: BASE_RATING_PROBS_def all_nonneg_def)

lemma choose_rating_range:
  "choose_rating_for_category L g c = Inr (r, g') \<Longrightarrow> r \<in> {1, 2, 3, 4, 5}"
  by (auto simp: choose_rating_for_category_def and_then_eq_Inr dest!: rng_choice_p_mem)

lemma choose_rating_returns:
  assumes "rng_ok L"
  shows "\<exists>r g'. choose_rating_for_category L g c = Inr (r, g')"
proof -
  from adjust_probs_distribution[OF base_rating_probs, of "category_bias c"]
  obtain out where o: "adjust_probs BASE_RATING_PROBS (category_bias c) = Inr out"
    "length out = 5" "all_nonneg out" "sum_list out = 1" by blast
  have "\<exists>x g'. rng_choice_p L [1, 2, 3, 4, 5 :: int] out g = Inr (x, g')"
    by (rule rng_choice_p_returns[OF assms]) (use o in \<open>simp_all add: all_nonneg_def\<close>)
  then show ?thesis
    by (simp add: choose_rating_for_category_def adjust_probs_for_category_def o(1))
qed

lemma templates_well_formed:
  "list_all (\<lambda>(k, t). openers t \<noteq> [] \<and> middles t \<noteq> [] \<and> closers t \<noteq> []) BASE_TEMPLATES"
  "map fst BASE_TEMPLATES = [1, 2, 3, 4, 5]"
  by (simp_all add: BASE_TEMPLATES_def)

lemma extra_pool_nonempty: "extra_pool r \<noteq> []"
  by (simp add: extra_pool_def)

lemma make_review_text_returns:
  assumes "rng_ok L" and "r \<in> {1, 2, 3, 4, 5}"
  shows "\<exists>body g'. make_review_text L g r pname pcat info = Inr (body, g')"
proof -
  from assms(2) have "r \<in> set (map fst BASE_TEMPLATES)"
    by (simp only: templates_well_formed(2)) auto
  then obtain tpl where t: "map_of BASE_TEMPLATES r = Some tpl"
    by (metis map_of_eq_None_iff not_None_eq set_map)
  then have "(r, tpl) \<in> set BASE_TEMPLATES" by (rule map_of_SomeD)
  with templates_well_formed(1) have wf: "openers tpl \<noteq> []" "middles tpl \<noteq> []" "closers tpl \<noteq> []"
    by (auto simp: list_all_iff)
  from rng_choice_returns[OF assms(1) wf(1)] obtain o1 g1 where
    c1: "rng_choice L (openers tpl) g = Inr (o1, g1)" by blast
  from rng_choice_returns[OF assms(1) wf(2)] obtain m1 g2 where
    c2: "rng_choice L (middles tpl) g1 = Inr (m1, g2)" by blast
  from rng_choice_returns[OF assms(1) wf(3)] obtain cl g3 where
    c3: "rng_choice L (closers tpl) g2 = Inr (cl, g3)" by blast
  from rng_choice_returns[OF assms(1) extra_pool_nonempty] obtain e g4 where
    c4: "rng_choice L (extra_pool r) g3 = Inr (e, g4)" by blast
  show ?thesis by (simp add: make_review_text_def t c1 c2 c3 c4 Let_def)
qed

lemma make_review_text_length:
  assumes "make_review_text L g r pname pcat info = Inr (body, g')"
  shows "length body \<le> MAX_REVIEW_CHARS"
proof -
  have "0 < MAX_REVIEW_CHARS" by (simp add: MAX_REVIEW_CHARS_def)
  from safe_truncate_le[OF this] assms show ?thesis
    by (auto simp: make_review_text_def and_then_eq_Inr Let_def split: option.splits)
qed

lemma sample_review_date_returns:
  assumes "0 \<le> yrs"
  shows "\<exists>d g'. sample_review_date L g now yrs = Inr (d, g')"
proof -
  have "(0::int) < (now - (now - 365 * yrs * 86400)) + 1" using assms by simp
  from rng_integers_returns[OF this, of L g] show ?thesis
    by (auto simp: sample_review_date_def Let_def)
qed

lemma make_review_fields:
  assumes "make_review L clock yrs pid pname pcat g counter = Inr (r, g')"
  shows "review_id r = counter \<and> product_id r = pid \<and> product_name r = pname \<and>
         product_category r = pcat \<and> rating r \<in> {1, 2, 3, 4, 5} \<and>
         length (review_text r) \<le> MAX_REVIEW_CHARS"
  using assms
  by (auto simp: make_review_def and_then_eq_Inr dest: choose_rating_range make_review_text_length)

lemma make_review_returns:
  assumes "rng_ok L" and "0 \<le> yrs"
  shows "\<exists>r g'. make_review L clock yrs pid pname pcat g counter = Inr (r, g')"
proof -
  from sample_persona_returns[OF assms(1)] obtain info g1 where
    c1: "sample_persona L g = Inr (info, g1)" by blast
  from choose_rating_returns[OF assms(1)] obtain rt g2 where
    c2: "choose_rating_for_category L g1 pcat = Inr (rt, g2)" by blast
  from make_review_text_returns[OF assms(1) choose_rating_range[OF c2]] obtain body g3 where
    c3: "make_review_text L g2 rt pname pcat info = Inr (body, g3)" by blast
  from sample_review_date_returns[OF assms(2), of L g3 "clock counter"] obtain d g4 where
    c4: "sample_review_date L g3 (clock counter) yrs = Inr (d, g4)" by blast
  show ?thesis by (simp add: make_review_def c1 c2 c3 c4)
qed

subsection \<open>The loops over reviews and product rows\<close>

lemma upto_append:
  assumes "c \<le> c1" and "c1 \<le> c2"
  shows "[c .. c1 - 1] @ [c1 .. c2 - 1] = [c .. c2 - 1]"
proof (cases "c = c1")
  case True
  then show ?thesis by simp
next
  case False
  with assms have "c \<le> c1 - 1" "c1 - 1 \<le> c2 - 1" by simp_all
  from upto_split2[OF this] show ?thesis by simp
qed

lemma review_loop_rows:
  assumes "review_loop L clock yrs pid pname pcat n (g, c, rows_out) = Inr (g', c', rows_out')"
  shows "c' = c + int n \<and>
         (\<exists>new. rows_out' = rows_out @ new \<and> length new = n \<and>
            map review_id new = [c .. c' - 1] \<and>
            list_all (\<lambda>r. product_id r = pid \<and> product_name r = pname \<and>
                           product_category r = pcat) new)"
  using assms
proof (induction n arbitrary: g c rows_out)
  case 0
  then show ?case by simp
next
  case (Suc n)
  from Suc.prems obtain r g1 where
    m: "make_review L clock yrs pid pname pcat g c = Inr (r, g1)" and
    rest: "review_loop L clock yrs pid pname pcat n (g1, c + 1, rows_out @ [r]) = Inr (g', c', rows_out')"
    by (auto simp: and_then_eq_Inr)
  from Suc.IH[OF rest] obtain new where
    c': "c' = c + 1 + int n" and
    new: "rows_out' = (rows_out @ [r]) @ new" "length new = n"
      "map review_id new = [c + 1 .. c' - 1]"
      "list_all (\<lambda>r. product_id r = pid \<and> product_name r = pname \<and> product_category r = pcat) new"
    by blast
  from make_review_fields[OF m] have r: "review_id r = c" "product_id r = pid"
    "product_name r = pname" "product_category r = pcat" by simp_all
  have "[c .. c' - 1] = c # [c + 1 .. c' - 1]" using c' by (simp add: upto_rec1)
  with c' new r have "c' = c + int (Suc n) \<and> rows_out' = rows_out @ (r # new) \<and>
      length (r # new) = Suc n \<and> map review_id (r # new) = [c .. c' - 1] \<and>
      list_all (\<lambda>r. product_id r = pid \<and> product_name r = pname \<and> product_category r = pcat) (r # new)"
    by simp
  then show ?case by blast
qed

lemma review_loop_returns:
  assumes "rng_ok L" and "0 \<le> yrs"
  shows "\<exists>s'. review_loop L clock yrs pid pname pcat n (g, c, rows_out) = Inr s'"
proof (induction n arbitrary: g c rows_out)
  case 0
  show ?case by simp
next
  case (Suc n)
  from make_review_returns[OF assms, of clock pid pname pcat g c] obtain r g1 where
    "make_review L clock yrs pid pname pcat g c = Inr (r, g1)" by blast
  with Suc.IH[of g1 "c + 1" "rows_out @ [r]"] show ?case by simp
qed

lemma process_row_rows:
  assumes "process_row L clock a has_category p (g, c, rows_out) = Inr (g', c', rows_out')"
  shows "\<exists>new. rows_out' = rows_out @ new \<and> c' = c + int (length new) \<and>
           map review_id new = [c .. c' - 1] \<and> list_all (from_row has_category p) new \<and>
           int (length new) \<le> max 0 (max_reviews_per_product a)"
proof -
  from assms obtain n g1 where
    n: "choose_num_reviews L g (max_reviews_per_product a) = Inr (n, g1)" and
    l: "review_loop L clock (years_back a) (row_id p) (row_name p) (row_pcat has_category p)
          (nat n) (g1, c, rows_out) = Inr (g', c', rows_out')"
    by (auto simp: process_row_def and_then_eq_Inr Let_def)
  from choose_num_reviews_range[OF n] have b: "0 \<le> n" "n \<le> max 0 (max_reviews_per_product a)"
    by simp_all
  from review_loop_rows[OF l] b show ?thesis
    by (auto simp: from_row_def list_all_iff)
qed

lemma process_row_returns:
  assumes "rng_ok L" and "max_reviews_per_product a \<le> 5" and "0 \<le> years_back a"
  shows "\<exists>s'. process_row L clock a has_category p s = Inr s'"
proof -
  obtain g c rows_out where s: "s = (g, c, rows_out)" by (metis prod_cases3)
  from choose_num_reviews_returns[OF assms(1,2), of g] obtain n g1 where
    "choose_num_reviews L g (max_reviews_per_product a) = Inr (n, g1)" by blast
  with review_loop_returns[OF assms(1,3)] s show ?thesis
    by (simp add: process_row_def Let_def)
qed

lemma process_row_none:
  "max_reviews_per_product a < 1 \<Longrightarrow> process_row L clock a has_category p s = Inr s"
  by (cases s) (simp add: process_row_def choose_num_reviews_zero)

lemma rows_loop_rows:
  assumes "rows_loop L clock a has_category ps (g, c, rows_out) = Inr (g', c', rows_out')"
  shows "\<exists>new. rows_out' = rows_out @ new \<and> c' = c + int (length new) \<and>
           map review_id new = [c .. c' - 1] \<and>
           list_all (\<lambda>r. \<exists>p \<in> set ps. from_row has_category p r) new"
  using assms
proof (induction ps arbitrary: g c rows_out)
  case Nil
  then show ?case by simp
next
  case (Cons p ps)
  from Cons.prems obtain g1 c1 rows1 where
    s1: "process_row L clock a has_category p (g, c, rows_out) = Inr (g1, c1, rows1)" and
    s2: "rows_loop L clock a has_category ps (g1, c1, rows1) = Inr (g', c', rows_out')"
    by (auto simp: and_then_eq_Inr)
  from process_row_rows[OF s1] obtain n1 where
    n1: "rows1 = rows_out @ n1" "c1 = c + int (length n1)" "map review_id n1 = [c .. c1 - 1]"
      "list_all (from_row has_category p) n1" by blast
  from Cons.IH[OF s2] obtain n2 where
    n2: "rows_out' = rows1 @ n2" "c' = c1 + int (length n2)" "map review_id n2 = [c1 .. c' - 1]"
      "list_all (\<lambda>r. \<exists>p \<in> set ps. from_row has_category p r) n2" by blast
  have le: "c \<le> c1" "c1 \<le> c'" using n1(2) n2(2) by simp_all
  have "rows_out' = rows_out @ (n1 @ n2)" using n1(1) n2(1) by simp
  moreover have "c' = c + int (length (n1 @ n2))" using n1(2) n2(2) by simp
  moreover have "map review_id (n1 @ n2) = [c .. c' - 1]"
    using n1(3) n2(3) upto_append[OF le] by simp
  moreover have "list_all (\<lambda>r. \<exists>p \<in> set (p # ps). from_row has_category p r) (n1 @ n2)"
    using n1(4) n2(4) by (auto simp: list_all_iff)
  ultimately show ?case by blast
qed

lemma rows_loop_returns:
  assumes "rng_ok L" and "max_reviews_per_product a \<le> 5" and "0 \<le> years_back a"
  shows "\<exists>s'. rows_loop L clock a has_category ps s = Inr s'"
proof (induction ps arbitrary: s)
  case Nil
  show ?case by (rule exI[of _ s]) simp
next
  case (Cons p ps)
  from process_row_returns[OF assms, of clock has_category p s] obtain s1 where
    "process_row L clock a has_category p s = Inr s1" by blast
  with Cons.IH[of s1] show ?case by simp
qed

lemma rows_loop_none:
  "max_reviews_per_product a < 1 \<Longrightarrow> rows_loop L clock a has_category ps s = Inr s"
  by (induction ps) (simp_all add: process_row_none)

subsection \<open>Batches and whole runs\<close>

lemma write_batch_emitted:
  assumes "\<not> out_is_csv \<longrightarrow> csv_file st = []"
  shows "emitted (write_batch out_is_csv rows_out st) = emitted st @ rows_out \<and>
         review_id_counter (write_batch out_is_csv rows_out st) = review_id_counter st \<and>
         rng (write_batch out_is_csv rows_out st) = rng st \<and>
         (\<not> out_is_csv \<longrightarrow> csv_file (write_batch out_is_csv rows_out st) = [])"
  using assms by (auto simp: write_batch_def emitted_def split: option.splits)

lemma process_batch_rows:
  assumes "process_batch L clock a out_is_csv b st = Inr st'"
    and "\<not> out_is_csv \<longrightarrow> csv_file st = []"
  shows "\<exists>new. emitted st' = emitted st @ new \<and>
           review_id_counter st' = review_id_counter st + int (length new) \<and>
           map review_id new = [review_id_counter st .. review_id_counter st' - 1] \<and>
           list_all (\<lambda>r. \<exists>p \<in> set (df_rows b).
                       from_row (category_column a \<in> set (df_columns b)) p r) new \<and>
           (\<not> out_is_csv \<longrightarrow> csv_file st' = [])"
proof -
  let ?has = "category_column a \<in> set (df_columns b)"
  from assms(1) obtain g c rows_out where
    l: "rows_loop L clock a ?has (df_rows b) (rng st, review_id_counter st, []) = Inr (g, c, rows_out)" and
    w: "st' = write_batch out_is_csv rows_out (st\<lparr>rng := g, review_id_counter := c\<rparr>)"
    by (auto simp: process_batch_def and_then_eq_Inr Let_def)
  from rows_loop_rows[OF l] have r: "c = review_id_counter st + int (length rows_out)"
    "map review_id rows_out = [review_id_counter st .. c - 1]"
    "list_all (\<lambda>r. \<exists>p \<in> set (df_rows b). from_row ?has p r) rows_out"
    by auto
  have inv: "\<not> out_is_csv \<longrightarrow> csv_file (st\<lparr>rng := g, review_id_counter := c\<rparr>) = []"
    using assms(2) by simp
  have e: "emitted (st\<lparr>rng := g, review_id_counter := c\<rparr>) = emitted st"
    by (simp add: emitted_def)
  from write_batch_emitted[OF inv, of rows_out] w e r show ?thesis
    by (intro exI[of _ rows_out]) simp
qed

lemma process_batch_returns:
  assumes "rng_ok L" and "max_reviews_per_product a \<le> 5" and "0 \<le> years_back a"
  shows "\<exists>st'. process_batch L clock a out_is_csv b st = Inr st'"
proof -
  from rows_loop_returns[OF assms] obtain s' where
    "rows_loop L clock a (category_column a \<in> set (df_columns b)) (df_rows b)
       (rng st, review_id_counter st, []) = Inr s'" by blast
  then show ?thesis
    by (cases s' rule: prod_cases3) (simp add: process_batch_def Let_def)
qed

lemma process_batch_none:
  "max_reviews_per_product a < 1 \<Longrightarrow> process_batch L clock a out_is_csv b st = Inr st"
  by (simp add: process_batch_def Let_def rows_loop_none write_batch_def)

lemma batches_loop_rows:
  assumes "batches_loop L clock a out_is_csv bs st = Inr st'"
    and "\<not> out_is_csv \<longrightarrow> csv_file st = []"
  shows "\<exists>new. emitted st' = emitted st @ new \<and>
           review_id_counter st' = review_id_counter st + int (length new) \<and>
           map review_id new = [review_id_counter st .. review_id_counter st' - 1] \<and>
           list_all (\<lambda>r. \<exists>b \<in> set bs. \<exists>p \<in> set (df_rows b).
                       from_row (category_column a \<in> set (df_columns b)) p r) new"
  using assms
proof (induction bs arbitrary: st)
  case Nil
  then show ?case by simp
next
  case (Cons b bs)
  from Cons.prems(1) obtain st1 where
    s1: "process_batch L clock a out_is_csv b st = Inr st1" and
    s2: "batches_loop L clock a out_is_csv bs st1 = Inr st'"
    by (auto simp: and_then_eq_Inr)
  from process_batch_rows[OF s1 Cons.prems(2)] obtain n1 where
    n1: "emitted st1 = emitted st @ n1"
      "review_id_counter st1 = review_id_counter st + int (length n1)"
      "map review_id n1 = [review_id_counter st .. review_id_counter st1 - 1]"
      "list_all (\<lambda>r. \<exists>p \<in> set (df_rows b).
                  from_row (category_column a \<in> set (df_columns b)) p r) n1"
    and inv: "\<not> out_is_csv \<longrightarrow> csv_file st1 = []" by blast
  from Cons.IH[OF s2 inv] obtain n2 where
    n2: "emitted st' = emitted st1 @ n2"
      "review_id_counter st' = review_id_counter st1 + int (length n2)"
      "map review_id n2 = [review_id_counter st1 .. review_id_counter st' - 1]"
      "list_all (\<lambda>r. \<exists>b \<in> set bs. \<exists>p \<in> set (df_rows b).
                  from_row (category_column a \<in> set (df_columns b)) p r) n2" by blast
  have le: "review_id_counter st \<le> review_id_counter st1"
    "review_id_counter st1 \<le> review_id_counter st'" using n1(2) n2(2) by simp_all
  have "emitted st' = emitted st @ (n1 @ n2)" using n1(1) n2(1) by simp
  moreover have "review_id_counter st' = review_id_counter st + int (length (n1 @ n2))"
    using n1(2) n2(2) by simp
  moreover have "map review_id (n1 @ n2) = [review_id_counter st .. review_id_counter st' - 1]"
    using n1(3) n2(3) upto_append[OF le] by simp
  moreover have "list_all (\<lambda>r. \<exists>b \<in> set (b # bs). \<exists>p \<in> set (df_rows b).
                  from_row (category_column a \<in> set (df_columns b)) p r) (n1 @ n2)"
    using n1(4) n2(4) by (auto simp: list_all_iff)
  ultimately show ?case by blast
qed

lemma batches_loop_returns:
  assumes "rng_ok L" and "max_reviews_per_product a \<le> 5" and "0 \<le> years_back a"
  shows "\<exists>st'. batches_loop L clock a out_is_csv bs st = Inr st'"
proof (induction bs arbitrary: st)
  case Nil
  show ?case by simp
next
  case (Cons b bs)
  from process_batch_returns[OF assms, of clock out_is_csv b st] obtain st1 where
    "process_batch L clock a out_is_csv b st = Inr st1" by blast
  with Cons.IH[of st1] show ?case by simp
qed

lemma batches_loop_none:
  "max_reviews_per_product a < 1 \<Longrightarrow> batches_loop L clock a out_is_csv bs st = Inr st"
  by (induction bs) (simp_all add: process_batch_none)

lemma concat_to_batches: "concat (to_batches n xs) = xs"
proof (induction n xs rule: to_batches.induct)
  case (1 n xs)
  show ?case
  proof (cases "xs = [] \<or> n = 0")
    case True
    then show ?thesis by (auto simp: to_batches.simps[of n xs])
  next
    case False
    with 1 show ?thesis by (simp add: to_batches.simps[of n xs])
  qed
qed

lemma to_batches_bounded: "0 < n \<Longrightarrow> list_all (\<lambda>b. b \<noteq> [] \<and> length b \<le> n) (to_batches n xs)"
proof (induction n xs rule: to_batches.induct)
  case (1 n xs)
  show ?case
  proof (cases "xs = []")
    case True
    then show ?thesis by (simp add: to_batches.simps[of n "[]"])
  next
    case False
    with 1 show ?thesis by (simp add: to_batches.simps[of n xs])
  qed
qed

lemma iter_products_batches:
  assumes "b \<in> set (iter_products_from_parquet pf (id_column a) (name_column a)
                       (category_column a) (batch_size a))"
  shows "(category_column a \<in> set (df_columns b)) = file_has_category a pf \<and>
         set (df_rows b) \<subseteq> set (concat (row_groups pf))"
proof -
  from assms obtain rg rows_b where
    rg: "rg \<in> set (row_groups pf)" and rb: "rows_b \<in> set (to_batches (batch_size a) rg)" and
    b: "b = \<lparr>df_columns = filter (\<lambda>c. c \<in> set (file_columns pf))
               ([id_column a, name_column a] @
                (if category_column a \<noteq> [] then [category_column a] else [])),
             df_rows = rows_b\<rparr>"
    by (auto simp: iter_products_from_parquet_def Let_def)
  from rb have "set rows_b \<subseteq> set (concat (to_batches (batch_size a) rg))" by auto
  then have "set rows_b \<subseteq> set rg" by (simp add: concat_to_batches)
  with rg b show ?thesis by (auto simp: file_has_category_def)
qed

lemma main_reviews_run:
  assumes "main_reviews L clock a pf = Inr st"
  shows "review_id_counter st = 1 + int (length (emitted st)) \<and>
         map review_id (emitted st) = [1 .. review_id_counter st - 1] \<and>
         list_all (\<lambda>r. \<exists>p \<in> set (concat (row_groups pf)).
                     from_row (file_has_category a pf) p r) (emitted st)"
proof -
  let ?bs = "iter_products_from_parquet pf (id_column a) (name_column a)
               (category_column a) (batch_size a)"
  let ?csv = "endswith (lower (output_path a)) ''.csv''"
  from assms have l: "batches_loop L clock a ?csv ?bs (initial_state (seed_rng L (seed a))) = Inr st"
    by (auto simp: main_reviews_def initial_state_def Let_def split: if_splits)
  have i: "\<not> ?csv \<longrightarrow> csv_file (initial_state (seed_rng L (seed a))) = []"
    by (simp add: initial_state_def)
  from batches_loop_rows[OF l i] obtain new where
    n: "emitted st = new" "review_id_counter st = 1 + int (length new)"
      "map review_id new = [1 .. review_id_counter st - 1]"
      "list_all (\<lambda>r. \<exists>b \<in> set ?bs. \<exists>p \<in> set (df_rows b).
                  from_row (category_column a \<in> set (df_columns b)) p r) new"
    by (auto simp: initial_state_def emitted_def)
  have "list_all (\<lambda>r. \<exists>p \<in> set (concat (row_groups pf)).
                     from_row (file_has_category a pf) p r) new"
    unfolding list_all_iff
  proof
    fix r assume "r \<in> set new"
    with n(4) obtain b p where b: "b \<in> set ?bs" and p: "p \<in> set (df_rows b)" and
      f: "from_row (category_column a \<in> set (df_columns b)) p r"
      by (auto simp: list_all_iff)
    from iter_products_batches[OF b] p f
    show "\<exists>p \<in> set (concat (row_groups pf)). from_row (file_has_category a pf) p r"
      by auto
  qed
  with n show ?thesis by simp
qed

lemma main_reviews_returns:
  assumes "rng_ok L" and "max_reviews_per_product a \<le> 5" and "0 \<le> years_back a"
    and "endswith (lower (output_path a)) ''.parquet'' \<or> endswith (lower (output_path a)) ''.csv''"
  shows "\<exists>st. main_reviews L clock a pf = Inr st"
  using batches_loop_returns[OF assms(1-3)] assms(4)
  by (simp add: main_reviews_def Let_def)

subsection \<open>Review ids\<close>

lemma rng_ok_counter: "rng_ok counter_rng"
proof -
  have "low \<le> low + int g mod (high - low) \<and> low + int g mod (high - low) < high"
    if "low < high" for low high :: int and g :: nat
  proof -
    from that have "0 < high - low" by simp
    then have "0 \<le> int g mod (high - low)" "int g mod (high - low) < high - low"
      by simp_all
    then show ?thesis by arith
  qed
  then show ?thesis by (simp add: rng_ok_def counter_rng_def)
qed

lemma example_output: "endswith (lower (output_path example_args)) ''.csv''"
  by (simp add: example_args_def endswith_def lower_def char_lower_def)

lemma example_args_fields: "max_reviews_per_product example_args = 5"
  "years_back example_args = 3" "seed example_args = 0"
  by (simp_all add: example_args_def)

lemma example_first_count:
  "choose_num_reviews counter_rng (seed_rng counter_rng 0) 5 = Inr (2, 1)"
  by (simp add: choose_num_reviews_def rng_choice_p_def counter_rng_def
      searchsorted_right_def Let_def)

lemma to_batches_single: "to_batches n [x] = [[x]]"
  by (simp add: to_batches.simps[of n "[x]"] to_batches.simps[of n "[]"])

lemma single_product_run:
  assumes "row_groups pf = [[p]]" and "main_reviews L clock a pf = Inr st"
    and "choose_num_reviews L (seed_rng L (seed a)) (max_reviews_per_product a) = Inr (n, g1)"
  shows "length (emitted st) = nat n"
proof -
  let ?csv = "endswith (lower (output_path a)) ''.csv''"
  let ?st0 = "initial_state (seed_rng L (seed a))"
  obtain cols where bs: "iter_products_from_parquet pf (id_column a) (name_column a)
      (category_column a) (batch_size a) = [\<lparr>df_columns = cols, df_rows = [p]\<rparr>]"
    by (simp add: iter_products_from_parquet_def assms(1) to_batches_single Let_def)
  let ?b = "\<lparr>df_columns = cols, df_rows = [p]\<rparr>"
  from assms(2) bs have "batches_loop L clock a ?csv [?b] ?st0 = Inr st"
    by (auto simp: main_reviews_def initial_state_def Let_def split: if_splits)
  then have pb: "process_batch L clock a ?csv ?b ?st0 = Inr st"
    by (auto simp: and_then_eq_Inr)
  then obtain g c rows_out where
    l: "rows_loop L clock a (category_column a \<in> set cols) [p] (rng ?st0, review_id_counter ?st0, [])
          = Inr (g, c, rows_out)" and
    w: "st = write_batch ?csv rows_out (?st0\<lparr>rng := g, review_id_counter := c\<rparr>)"
    by (auto simp: process_batch_def and_then_eq_Inr Let_def)
  from l have "process_row L clock a (category_column a \<in> set cols) p (seed_rng L (seed a), 1, [])
      = Inr (g, c, rows_out)"
    by (auto simp: and_then_eq_Inr initial_state_def)
  with assms(3) have "review_loop L clock (years_back a) (row_id p) (row_name p)
      (row_pcat (category_column a \<in> set cols) p) (nat n) (g1, 1, []) = Inr (g, c, rows_out)"
    by (simp add: process_row_def Let_def)
  from review_loop_rows[OF this] have len: "length rows_out = nat n" by auto
  have "\<not> ?csv \<longrightarrow> csv_file (?st0\<lparr>rng := g, review_id_counter := c\<rparr>) = []"
    by (simp add: initial_state_def)
  from write_batch_emitted[OF this, of rows_out] w len show ?thesis
    by (simp add: emitted_def initial_state_def)
qed

text \<open>
  C2: over one run, for every batch size, the review ids are emitted in strictly increasing
  order without repetition: they are 1, 2, ... up to the number of reviews emitted, and the
  counter ends one above it.
\<close>

theorem review_ids_increasing_unique:
  assumes "main_reviews L clock a pf = Inr st"
  shows "map review_id (emitted st) = [1 .. int (length (emitted st))] \<and>
         review_id_counter st = 1 + int (length (emitted st)) \<and>
         sorted_wrt (<) (map review_id (emitted st)) \<and>
         distinct (map review_id (emitted st))"
proof -
  from main_reviews_run[OF assms] have c: "review_id_counter st = 1 + int (length (emitted st))"
    and m: "map review_id (emitted st) = [1 .. review_id_counter st - 1]" by simp_all
  from c m have e: "map review_id (emitted st) = [1 .. int (length (emitted st))]" by simp
  have "sorted_wrt (<) [1 .. int (length (emitted st))]"
    by (simp add: strict_sorted_iff)
  with e c show ?thesis by simp
qed

theorem review_ids_increasing_unique_witness:
  "\<exists>st. main_reviews counter_rng example_clock example_args example_file = Inr st \<and>
     map review_id (emitted st) = [1 .. int (length (emitted st))] \<and>
     review_id_counter st = 1 + int (length (emitted st)) \<and>
     sorted_wrt (<) (map review_id (emitted st)) \<and>
     distinct (map review_id (emitted st))"
proof -
  from main_reviews_returns[OF rng_ok_counter, of example_args example_clock example_file]
  obtain st where r: "main_reviews counter_rng example_clock example_args example_file = Inr st"
    using example_output by (auto simp: example_args_fields)
  from review_ids_increasing_unique[OF r] r show ?thesis by blast
qed

subsection \<open>Categories and empty runs\<close>

text \<open>
  C7: a product row whose provided or derived category is not a key of the bias table has
  all its review rows emitted with the category General.
\<close>

theorem unknown_category_is_general:
  assumes "main_reviews L clock a pf = Inr st" and "r \<in> set (emitted st)"
    and "\<forall>p \<in> set (concat (row_groups pf)). row_id p = product_id r \<longrightarrow>
           derived_category (file_has_category a pf) p \<notin> set (map fst CATEGORY_BIASES)"
  shows "product_category r = ''General''"
proof -
  from main_reviews_run[OF assms(1)] have
    "list_all (\<lambda>r. \<exists>p \<in> set (concat (row_groups pf)).
                from_row (file_has_category a pf) p r) (emitted st)" by blast
  with assms(2) obtain p where
    p: "p \<in> set (concat (row_groups pf))" and f: "from_row (file_has_category a pf) p r"
    unfolding list_all_iff by blast
  from f have "row_id p = product_id r" by (simp add: from_row_def)
  with assms(3) p have "derived_category (file_has_category a pf) p \<notin> set (map fst CATEGORY_BIASES)"
    by blast
  with f show ?thesis by (simp add: from_row_def row_pcat_def Let_def)
qed

lemma single_file_run:
  "\<exists>st r. main_reviews counter_rng example_clock example_args single_file = Inr st \<and>
     r \<in> set (emitted st) \<and> length (emitted st) = 2"
proof -
  from main_reviews_returns[OF rng_ok_counter, of example_args example_clock single_file]
  obtain st where r: "main_reviews counter_rng example_clock example_args single_file = Inr st"
    using example_output by (auto simp: example_args_fields)
  have "row_groups single_file = [[toy_row]]" by (simp add: single_file_def)
  from single_product_run[OF this r] example_first_count
  have "length (emitted st) = 2" by (simp add: example_args_fields)
  then have "hd (emitted st) \<in> set (emitted st)" by (cases "emitted st") simp_all
  with r \<open>length (emitted st) = 2\<close> show ?thesis by blast
qed

lemma single_file_category:
  "file_has_category example_args single_file"
  "derived_category True toy_row = ''Toys & Games''"
  "''Toys & Games'' \<notin> set (map fst CATEGORY_BIASES)"
  by (simp_all add: file_has_category_def example_args_def single_file_def
      derived_category_def toy_row_def CATEGORY_BIASES_def)

theorem unknown_category_is_general_witness:
  "\<exists>st r. main_reviews counter_rng example_clock example_args single_file = Inr st \<and>
     r \<in> set (emitted st) \<and>
     derived_category (file_has_category example_args single_file) toy_row
       \<notin> set (map fst CATEGORY_BIASES) \<and>
     product_category r = ''General''"
proof -
  from single_file_run obtain st r where
    run: "main_reviews counter_rng example_clock example_args single_file = Inr st" and
    r: "r \<in> set (emitted st)" by blast
  have d: "derived_category (file_has_category example_args single_file) toy_row
      \<notin> set (map fst CATEGORY_BIASES)"
    by (simp only: single_file_category) simp
  then have "\<forall>p \<in> set (concat (row_groups single_file)). row_id p = product_id r \<longrightarrow>
      derived_category (file_has_category example_args single_file) p
        \<notin> set (map fst CATEGORY_BIASES)"
    by (simp add: single_file_def)
  from unknown_category_is_general[OF run r this] run r d show ?thesis by blast
qed

text \<open>
  C8: with a maximum of 0 the sampler returns 0 and leaves the generator as it was. A run
  with a valid output name then ends normally in its initial state: the generator is the
  seeded one, the counter is 1, no writer was opened, and no frame and no header was
  written, so the output is empty.
\<close>

theorem zero_max_reviews_empty_run:
  assumes "max_reviews_per_product a = 0"
    and "endswith (lower (output_path a)) ''.parquet'' \<or>
         endswith (lower (output_path a)) ''.csv''"
  shows "choose_num_reviews L g (max_reviews_per_product a) = Inr (0, g) \<and>
         main_reviews L clock a pf = Inr (initial_state (seed_rng L (seed a))) \<and>
         emitted (initial_state (seed_rng L (seed a))) = [] \<and>
         parquet_writer (initial_state (seed_rng L (seed a))) = None \<and>
         csv_file (initial_state (seed_rng L (seed a))) = [] \<and>
         \<not> csv_header_written (initial_state (seed_rng L (seed a)))"
proof -
  from assms(1) have z: "max_reviews_per_product a < 1" by simp
  have "main_reviews L clock a pf = Inr (initial_state (seed_rng L (seed a)))"
    using assms(2) by (simp add: main_reviews_def Let_def batches_loop_none[OF z] initial_state_def)
  then show ?thesis
    using z by (simp add: choose_num_reviews_zero initial_state_def emitted_def)
qed

theorem zero_max_reviews_empty_run_witness:
  "max_reviews_per_product (example_args\<lparr>max_reviews_per_product := 0\<rparr>) = 0 \<and>
   endswith (lower (output_path (example_args\<lparr>max_reviews_per_product := 0\<rparr>))) ''.csv'' \<and>
   main_reviews counter_rng example_clock (example_args\<lparr>max_reviews_per_product := 0\<rparr>)
     example_file = Inr (initial_state 0) \<and>
   emitted (initial_state (0::nat)) = []"
proof -
  let ?a = "example_args\<lparr>max_reviews_per_product := 0\<rparr>"
  have h: "max_reviews_per_product ?a = 0" "endswith (lower (output_path ?a)) ''.csv''"
    using example_output by simp_all
  have s: "seed_rng counter_rng (seed ?a) = 0"
    by (simp add: counter_rng_def example_args_def)
  from zero_max_reviews_empty_run[of ?a counter_rng _ example_clock example_file] h s
  show ?thesis by simp
qed

subsection \<open>Product categories and the bias table\<close>

lemma categories_list:
  "map fst CATEGORY_PRODUCTS =
     [''Electronics'', ''Computers & Accessories'', ''Smart Home'', ''Home & Kitchen'',
      ''Furniture'', ''Tools & Home Improvement'', ''Sports & Outdoors'', ''Clothing'',
      ''Shoes'', ''Beauty & Personal Care'', ''Health & Household'', ''Baby'',
      ''Pet Supplies'', ''Toys & Games'', ''Books'', ''Office Products'', ''Video Games'',
      ''Automotive'', ''Industrial & Scientific'', ''Arts, Crafts & Sewing'']"
  by (simp add: CATEGORY_PRODUCTS_def)

lemma bias_keys:
  "map fst CATEGORY_BIASES =
     [''Electronics'', ''Automotive'', ''Tools'', ''Clothing'', ''Shoes'', ''Toys'', ''Books'',
      ''Music'', ''Movies'', ''Health'', ''Beauty'', ''Grocery'', ''Home'', ''Garden'',
      ''Sports'', ''Office'', ''Pets'', ''Baby'', ''Outdoors'', ''Jewelry'', ''General'']"
  by (simp add: CATEGORY_BIASES_def)

lemma biased_categories_filter:
  "filter (\<lambda>c. c \<in> set (map fst CATEGORY_BIASES)) (map fst CATEGORY_PRODUCTS)
     = biased_product_categories"
  by (simp add: categories_list bias_keys biased_product_categories_def)

lemma unbiased_categories_count:
  "length (filter (\<lambda>c. c \<notin> set (map fst CATEGORY_BIASES)) (map fst CATEGORY_PRODUCTS)) = 14"
  by (simp add: categories_list bias_keys)

lemma general_is_neutral:
  "choose_rating_for_category L g ''General'' = rng_choice_p L [1, 2, 3, 4, 5] BASE_RATING_PROBS g"
  by (simp add: choose_rating_for_category_def adjust_probs_for_category_def adjust_probs_def
      category_bias_def CATEGORY_BIASES_def)

text \<open>
  C10: six of the twenty product categories are keys of the bias table. A review of a
  product in one of the other fourteen carries the category General, and its rating is
  drawn with the base distribution as it stands.
\<close>

theorem other_categories_general_and_neutral:
  assumes "main_reviews L clock a pf = Inr st" and "file_has_category a pf"
    and "r \<in> set (emitted st)"
    and "\<forall>p \<in> set (concat (row_groups pf)). row_id p = product_id r \<longrightarrow>
           (\<exists>c \<in> set (map fst CATEGORY_PRODUCTS) - set biased_product_categories.
              row_category p = Some c)"
  shows "filter (\<lambda>c. c \<in> set (map fst CATEGORY_BIASES)) (map fst CATEGORY_PRODUCTS)
           = biased_product_categories \<and>
         length (map fst CATEGORY_PRODUCTS) = 20 \<and>
         length (filter (\<lambda>c. c \<notin> set (map fst CATEGORY_BIASES)) (map fst CATEGORY_PRODUCTS)) = 14 \<and>
         product_category r = ''General'' \<and>
         choose_rating_for_category L g (product_category r)
           = rng_choice_p L [1, 2, 3, 4, 5] BASE_RATING_PROBS g"
proof -
  from main_reviews_run[OF assms(1)] have
    "list_all (\<lambda>r. \<exists>p \<in> set (concat (row_groups pf)).
                from_row (file_has_category a pf) p r) (emitted st)" by blast
  with assms(3) obtain p where
    p: "p \<in> set (concat (row_groups pf))" and f: "from_row (file_has_category a pf) p r"
    unfolding list_all_iff by blast
  from f have "row_id p = product_id r" by (simp add: from_row_def)
  with assms(4) p obtain c where
    c: "c \<in> set (map fst CATEGORY_PRODUCTS)" "c \<notin> set biased_product_categories"
      "row_category p = Some c" by blast
  have "c \<notin> set (map fst CATEGORY_BIASES)"
  proof
    assume "c \<in> set (map fst CATEGORY_BIASES)"
    with c(1) have "c \<in> set (filter (\<lambda>c. c \<in> set (map fst CATEGORY_BIASES))
        (map fst CATEGORY_PRODUCTS))" by simp
    with c(2) show False by (simp only: biased_categories_filter)
  qed
  with c(3) assms(2) have "row_pcat (file_has_category a pf) p = ''General''"
    by (simp add: row_pcat_def derived_category_def Let_def)
  with f have g: "product_category r = ''General''" by (simp add: from_row_def)
  have "length (map fst CATEGORY_PRODUCTS) = 20" by (simp only: categories_list) simp
  with g biased_categories_filter unbiased_categories_count general_is_neutral
  show ?thesis by simp
qed

theorem other_categories_general_and_neutral_witness:
  "\<exists>st r. main_reviews counter_rng example_clock example_args single_file = Inr st \<and>
     file_has_category example_args single_file \<and> r \<in> set (emitted st) \<and>
     ''Toys & Games'' \<in> set (map fst CATEGORY_PRODUCTS) - set biased_product_categories \<and>
     row_category toy_row = Some ''Toys & Games'' \<and>
     product_category r = ''General'' \<and>
     choose_rating_for_category counter_rng 0 (product_category r)
       = rng_choice_p counter_rng [1, 2, 3, 4, 5] BASE_RATING_PROBS 0"
proof -
  from single_file_run obtain st r where
    run: "main_reviews counter_rng example_clock example_args single_file = Inr st" and
    r: "r \<in> set (emitted st)" by blast
  have c: "''Toys & Games'' \<in> set (map fst CATEGORY_PRODUCTS) - set biased_product_categories"
    "row_category toy_row = Some ''Toys & Games''"
    by (simp_all add: categories_list biased_product_categories_def toy_row_def)
  then have "\<forall>p \<in> set (concat (row_groups single_file)). row_id p = product_id r \<longrightarrow>
      (\<exists>c \<in> set (map fst CATEGORY_PRODUCTS) - set biased_product_categories.
         row_category p = Some c)"
    by (simp add: single_file_def)
  from other_categories_general_and_neutral[OF run single_file_category(1) r this, of 0]
    run r c single_file_category(1)
  show ?thesis by blast
qed

subsection \<open>Vectorised draws and rounding\<close>

lemma length_draws [simp]: "length (fst (draws n f g)) = n"
proof (induction n arbitrary: g)
  case 0
  show ?case by simp
next
  case (Suc n)
  obtain x g1 where f: "f g = (x, g1)" by (cases "f g")
  obtain xs g2 where d: "draws n f g1 = (xs, g2)" by (cases "draws n f g1")
  from Suc[of g1] d have "length xs = n" by simp
  with f d show ?case by simp
qed

lemma draws_all:
  assumes "\<And>g. P (fst (f g))"
  shows "list_all P (fst (draws n f g))"
proof (induction n arbitrary: g)
  case 0
  show ?case by simp
next
  case (Suc n)
  obtain x g1 where f: "f g = (x, g1)" by (cases "f g")
  obtain xs g2 where d: "draws n f g1 = (xs, g2)" by (cases "draws n f g1")
  from assms[of g] f have "P x" by simp
  moreover from Suc[of g1] d have "list_all P xs" by simp
  ultimately show ?case using f d by simp
qed

lemma rint_bounds:
  assumes "of_int k \<le> y" and "y \<le> of_int k'"
  shows "k \<le> rint y \<and> rint y \<le> k'"
proof -
  have lo: "k \<le> floor y" using assms(1) by (simp add: le_floor_iff)
  have hi: "floor y \<le> k'" using assms(2) by (simp add: floor_le_iff)
  show ?thesis
  proof (cases "y - of_int (floor y) < 1 / 2")
    case True
    then show ?thesis using lo hi by (simp add: rint_def Let_def)
  next
    case False
    then have "of_int (floor y) < y" by simp
    with assms(2) have "of_int (floor y) < (of_int k' :: real)" by simp
    then have "floor y < k'" by simp
    then have "floor y + 1 \<le> k'" by simp
    with lo hi show ?thesis by (auto simp: rint_def Let_def)
  qed
qed

lemma np_round_decimals: "decimals_at_most d (np_round x d)"
  by (simp add: decimals_at_most_def np_round_def)

lemma np_round_bounds:
  assumes "of_int k \<le> x * 10 ^ d" and "x * 10 ^ d \<le> of_int k'"
  shows "of_int k / 10 ^ d \<le> np_round x d \<and> np_round x d \<le> of_int k' / 10 ^ d"
  using rint_bounds[OF assms] by (simp add: np_round_def divide_le_cancel)

lemma uniform_range:
  assumes "rng_ok L" and "low < high"
  shows "low \<le> fst (case next_random L g of (u, g') \<Rightarrow> (low + (high - low) * u, g')) \<and>
         fst (case next_random L g of (u, g') \<Rightarrow> (low + (high - low) * u, g')) < high"
proof -
  obtain u g' where d: "next_random L g = (u, g')" by (cases "next_random L g")
  with assms(1) have u: "0 \<le> u" "u < 1" unfolding rng_ok_def by (metis fst_conv)+
  from assms(2) have p: "0 < high - low" by simp
  have "0 \<le> (high - low) * u" using p u(1) by simp
  moreover have "(high - low) * u < (high - low) * 1"
    using p u(2) by (simp only: mult_less_cancel_left_pos)
  ultimately show ?thesis using d by simp
qed

lemma price_ok_round:
  assumes "499 / 100 \<le> x" and "x < 99999 / 100"
  shows "price_ok (np_round x 2)"
proof -
  have "of_int 499 \<le> x * 10 ^ 2" "x * 10 ^ 2 \<le> of_int 99999" using assms by simp_all
  from np_round_bounds[OF this] np_round_decimals[of 2 x] show ?thesis
    by (simp add: price_ok_def)
qed

lemma margin_ok_round:
  assumes "5 / 100 \<le> x" and "x < 75 / 100"
  shows "margin_ok (np_round x 4)"
proof -
  have "of_int 500 \<le> x * 10 ^ 4" "x * 10 ^ 4 \<le> of_int 7500" using assms by simp_all
  from np_round_bounds[OF this] np_round_decimals[of 4 x] show ?thesis
    by (simp add: margin_ok_def)
qed


end
